theory Spec2Isabelle
  imports Main
begin

section \<open>Cards and the deck\<close>

text \<open>
  A card's rank is a Python value that is either an int (2 to 10) or a str
  ('J', 'Q', 'K', 'A'); \<open>card.rank == 'A'\<close> is false for every int.
\<close>

datatype rank = IntRank int | StrRank string

text \<open>\<open>Card(rank, suit, value)\<close>; the field \<open>value\<close> is named \<open>cvalue\<close> here.\<close>

datatype card = Card (rank: rank) (suit: string) (cvalue: int)

text \<open>
  The four suit symbols \<open>chr(9824)\<close>, \<open>chr(9827)\<close>, \<open>chr(9829)\<close>, \<open>chr(9830)\<close>,
  written as their UTF-8 bytes.
\<close>

definition suits :: "string list" where
  "suits = [[CHR 0xE2, CHR 0x99, CHR 0xA0], [CHR 0xE2, CHR 0x99, CHR 0xA3],
            [CHR 0xE2, CHR 0x99, CHR 0xA5], [CHR 0xE2, CHR 0x99, CHR 0xA6]]"

text \<open>The body of the loop over the suits in \<open>make_cards\<close>: the 13 cards of one suit.\<close>

definition cards_of_suit :: "string \<Rightarrow> card list" where
  "cards_of_suit st =
     map (\<lambda>r. Card (IntRank r) st r) [2..10]
     @ map (\<lambda>r. Card (StrRank r) st 10) [''J'', ''Q'', ''K'']
     @ [Card (StrRank ''A'') st 1]"

definition unshuffled_cards :: "card list" where
  "unshuffled_cards = concat (map cards_of_suit suits)"

text \<open>
  \<open>make_cards\<close>: \<open>random.shuffle\<close> is outside the program, so the permutation it
  applies is a parameter.
\<close>

definition make_cards :: "(card list \<Rightarrow> card list) \<Rightarrow> card list" where
  "make_cards shuffle = shuffle unshuffled_cards"

definition roundup :: "int \<Rightarrow> int" where
  "roundup x = (if x mod 100 = 0 then x else x + 100 - x mod 100)"

section \<open>Entities\<close>

record entity =
  hand :: "card list"
  limit :: int
  name :: string

record player = entity +
  money :: int

definition Dealer :: "card list \<Rightarrow> entity" where
  "Dealer h = \<lparr>hand = h, limit = 17, name = ''Dealer''\<rparr>"

definition Player :: "card list \<Rightarrow> int \<Rightarrow> string \<Rightarrow> player" where
  "Player h m n = \<lparr>hand = h, limit = 21, name = n, money = m\<rparr>"

text \<open>
  \<open>Entity.get_hand_value\<close>: the first loop counts the aces and sums the card values,
  the second runs \<open>aces_count\<close> times and adds 10 while that stays within \<open>self.limit\<close>.
\<close>

definition count_step :: "card \<Rightarrow> nat \<times> int \<Rightarrow> nat \<times> int" where
  "count_step c av =
     ((if rank c = StrRank ''A'' then fst av + 1 else fst av), snd av + cvalue c)"

definition ace_step :: "int \<Rightarrow> int \<Rightarrow> int" where
  "ace_step lim v = (if v + 10 \<le> lim then v + 10 else v)"

definition get_hand_value :: "'a entity_scheme \<Rightarrow> int" where
  "get_hand_value e =
     (let av = fold count_step (hand e) (0, 0)
      in (ace_step (limit e) ^^ fst av) (snd av))"

section \<open>The scorer as the specification words it\<close>

text \<open>
  Base values by rank: face value for 2 to 10, 10 for J, Q and K, 1 for an ace.
\<close>

fun base_value :: "rank \<Rightarrow> int" where
  "base_value (IntRank n) = n"
| "base_value (StrRank s) = (if s = ''A'' then 1 else 10)"

definition is_ace :: "card \<Rightarrow> bool" where
  "is_ace c = (rank c = StrRank ''A'')"

text \<open>For each ace present, add 10 more if that keeps the running total within the ceiling.\<close>

fun promote :: "int \<Rightarrow> nat \<Rightarrow> int \<Rightarrow> int" where
  "promote ceiling 0 tot = tot"
| "promote ceiling (Suc k) tot =
     promote ceiling k (if tot + 10 \<le> ceiling then tot + 10 else tot)"

definition base_total :: "card list \<Rightarrow> int" where
  "base_total h =
     sum_list (map (\<lambda>c. base_value (rank c)) (filter (\<lambda>c. \<not> is_ace c) h))
     + int (length (filter is_ace h))"

definition score_spec :: "card list \<Rightarrow> int \<Rightarrow> int" where
  "score_spec h ceiling = promote ceiling (length (filter is_ace h)) (base_total h)"

section \<open>Python strings\<close>

text \<open>
  Strings are byte strings, and console input is taken to be ASCII. \<open>str.strip\<close>
  removes the ASCII whitespace characters, \<open>str.upper\<close> and \<open>str.lower\<close> change
  the ASCII letters.
\<close>

definition is_space :: "char \<Rightarrow> bool" where
  "is_space c = (c \<in> set [CHR 0x09, CHR 0x0A, CHR 0x0B, CHR 0x0C, CHR 0x0D,
                            CHR 0x1C, CHR 0x1D, CHR 0x1E, CHR 0x1F, CHR 0x20])"

definition strip :: "string \<Rightarrow> string" where
  "strip x = rev (dropWhile is_space (rev (dropWhile is_space x)))"

definition upper_char :: "char \<Rightarrow> char" where
  "upper_char c =
     (case map_of (zip ''abcdefghijklmnopqrstuvwxyz'' ''ABCDEFGHIJKLMNOPQRSTUVWXYZ'') c of
        None \<Rightarrow> c
      | Some u \<Rightarrow> u)"

definition lower_char :: "char \<Rightarrow> char" where
  "lower_char c =
     (case map_of (zip ''ABCDEFGHIJKLMNOPQRSTUVWXYZ'' ''abcdefghijklmnopqrstuvwxyz'') c of
        None \<Rightarrow> c
      | Some l \<Rightarrow> l)"

definition upper :: "string \<Rightarrow> string" where
  "upper x = map upper_char x"

definition lower :: "string \<Rightarrow> string" where
  "lower x = map lower_char x"

text \<open>\<open>str(n)\<close> for an int.\<close>

fun str_nat :: "nat \<Rightarrow> string" where
  "str_nat n =
     (if n < 10 then [''0123456789'' ! n]
      else str_nat (n div 10) @ [''0123456789'' ! (n mod 10)])"

declare str_nat.simps [simp del]

definition str_int :: "int \<Rightarrow> string" where
  "str_int i = (if i < 0 then CHR ''-'' # str_nat (nat (- i)) else str_nat (nat i))"

text \<open>\<open>str(card.rank)\<close>, also what an f-string prints for a rank.\<close>

fun str_rank :: "rank \<Rightarrow> string" where
  "str_rank (IntRank n) = str_int n"
| "str_rank (StrRank x) = x"

text \<open>
  \<open>int(x)\<close> on a stripped string: an optional sign, then decimal digits, where single
  underscores may stand between digits. \<open>None\<close> is \<open>ValueError\<close>.
\<close>

definition digit_val :: "char \<Rightarrow> nat option" where
  "digit_val c = map_of (zip ''0123456789'' [0, 1, 2, 3, 4, 5, 6, 7, 8, 9]) c"

fun digits_val :: "nat \<Rightarrow> bool \<Rightarrow> string \<Rightarrow> nat option" where
  "digits_val acc after_digit [] = (if after_digit then Some acc else None)"
| "digits_val acc after_digit (c # cs) =
     (if c = CHR ''_'' then (if after_digit then digits_val acc False cs else None)
      else (case digit_val c of
              None \<Rightarrow> None
            | Some d \<Rightarrow> digits_val (10 * acc + d) True cs))"

definition py_int :: "string \<Rightarrow> int option" where
  "py_int x =
     (case x of
        [] \<Rightarrow> None
      | c # cs \<Rightarrow>
          if c = CHR ''-'' then map_option (\<lambda>n. - int n) (digits_val 0 False cs)
          else if c = CHR ''+'' then map_option int (digits_val 0 False cs)
          else map_option int (digits_val 0 False x))"

text \<open>\<open>x.ljust(n)\<close>, \<open>x.rjust(n, fill)\<close>, \<open>x.split(sep)\<close> for a one-character separator, \<open>sep.join(xs)\<close>.\<close>

definition ljust :: "nat \<Rightarrow> string \<Rightarrow> string" where
  "ljust n x = x @ replicate (n - length x) CHR '' ''"

definition rjust :: "nat \<Rightarrow> char \<Rightarrow> string \<Rightarrow> string" where
  "rjust n fill x = replicate (n - length x) fill @ x"

fun split_str :: "char \<Rightarrow> string \<Rightarrow> string list" where
  "split_str sep [] = [[]]"
| "split_str sep (c # cs) =
     (if c = sep then [] # split_str sep cs
      else (case split_str sep cs of
              [] \<Rightarrow> [[c]]
            | w # ws \<Rightarrow> (c # w) # ws))"

fun join :: "string \<Rightarrow> string list \<Rightarrow> string" where
  "join sep [] = []"
| "join sep [x] = x"
| "join sep (x # y # ys) = x @ sep @ join sep (y # ys)"

section \<open>Rendering cards\<close>

definition get_string_repr :: "card \<Rightarrow> string" where
  "get_string_repr c =
     (let r = str_rank (rank c)
      in '' ___ \<newline>''
         @ (''|'' @ ljust 2 r @ '' |\<newline>'')
         @ (''| '' @ suit c @ '' |\<newline>'')
         @ (''|_'' @ rjust 2 CHR ''_'' r @ ''|''))"

datatype error = IndexError | AttributeError | EOFError | SystemExit

text \<open>
  One line of \<open>show_all_cards\<close>: the \<open>i\<close>-th line of every card, each followed by two
  spaces; \<open>card[i]\<close> raises \<open>IndexError\<close> out of range.
\<close>

fun cards_row :: "string list list \<Rightarrow> nat \<Rightarrow> error + string" where
  "cards_row [] i = Inr []"
| "cards_row (c # cs) i =
     (if i < length c
      then (case cards_row cs i of Inl e \<Rightarrow> Inl e | Inr r \<Rightarrow> Inr (c ! i @ ''  '' @ r))
      else Inl IndexError)"

fun cards_rows :: "string list list \<Rightarrow> nat list \<Rightarrow> error + string" where
  "cards_rows cs [] = Inr []"
| "cards_rows cs (i # js) =
     (case cards_row cs i of
        Inl e \<Rightarrow> Inl e
      | Inr r \<Rightarrow>
          (case cards_rows cs js of Inl e \<Rightarrow> Inl e | Inr t \<Rightarrow> Inr (r @ ''\<newline>'' @ t)))"

definition hidden_card :: string where
  "hidden_card = '' ___ \<newline>|## |\<newline>|###|\<newline>|_##|''"

text \<open>
  \<open>Entity.show_all_cards\<close>: \<open>card_split[0]\<close> raises \<open>IndexError\<close> on an empty hand,
  with and without \<open>hide_first\<close>.
\<close>

definition show_all_cards :: "'a entity_scheme \<Rightarrow> bool \<Rightarrow> error + string" where
  "show_all_cards e hide_first =
     (case map (\<lambda>c. split_str CHR ''\<newline>'' (get_string_repr c)) (hand e) of
        [] \<Rightarrow> Inl IndexError
      | first # rest \<Rightarrow>
          (let first' = (if hide_first then split_str CHR ''\<newline>'' hidden_card else first)
           in cards_rows (first' # rest) [0..<length first']))"

section \<open>The game object and the console\<close>

text \<open>
  The fields of a \<open>BlackJack\<close> object, with the console beside them: \<open>stdin\<close> holds
  the lines still to be read by \<open>input\<close>, \<open>stdout\<close> the chunks written so far.
\<close>

record state =
  start_amount :: int
  deck :: "card list"
  player_name :: string
  player :: player
  dealer :: entity
  player_split :: player
  split :: bool
  stdin :: "string list"
  stdout :: "string list"

text \<open>
  An \<open>entity\<close> argument is a reference to one of the three objects the game holds;
  entities define no \<open>__eq__\<close>, so \<open>==\<close> and \<open>is\<close> both compare references.
\<close>

datatype eref = Player_ref | Player_split_ref | Dealer_ref

fun ref_hand :: "state \<Rightarrow> eref \<Rightarrow> card list" where
  "ref_hand s Player_ref = hand (player s)"
| "ref_hand s Player_split_ref = hand (player_split s)"
| "ref_hand s Dealer_ref = hand (dealer s)"

fun ref_limit :: "state \<Rightarrow> eref \<Rightarrow> int" where
  "ref_limit s Player_ref = limit (player s)"
| "ref_limit s Player_split_ref = limit (player_split s)"
| "ref_limit s Dealer_ref = limit (dealer s)"

fun ref_name :: "state \<Rightarrow> eref \<Rightarrow> string" where
  "ref_name s Player_ref = name (player s)"
| "ref_name s Player_split_ref = name (player_split s)"
| "ref_name s Dealer_ref = name (dealer s)"

fun ref_value :: "state \<Rightarrow> eref \<Rightarrow> int" where
  "ref_value s Player_ref = get_hand_value (player s)"
| "ref_value s Player_split_ref = get_hand_value (player_split s)"
| "ref_value s Dealer_ref = get_hand_value (dealer s)"

fun ref_show :: "state \<Rightarrow> eref \<Rightarrow> bool \<Rightarrow> error + string" where
  "ref_show s Player_ref hide_first = show_all_cards (player s) hide_first"
| "ref_show s Player_split_ref hide_first = show_all_cards (player_split s) hide_first"
| "ref_show s Dealer_ref hide_first = show_all_cards (dealer s) hide_first"

text \<open>Reading \<open>entity.money\<close>: a \<open>Dealer\<close> has no such attribute.\<close>

fun ref_money :: "state \<Rightarrow> eref \<Rightarrow> error + int" where
  "ref_money s Player_ref = Inr (money (player s))"
| "ref_money s Player_split_ref = Inr (money (player_split s))"
| "ref_money s Dealer_ref = Inl AttributeError"

fun hand_append :: "eref \<Rightarrow> card \<Rightarrow> state \<Rightarrow> state" where
  "hand_append Player_ref c s = s\<lparr>player := (player s)\<lparr>hand := hand (player s) @ [c]\<rparr>\<rparr>"
| "hand_append Player_split_ref c s =
     s\<lparr>player_split := (player_split s)\<lparr>hand := hand (player_split s) @ [c]\<rparr>\<rparr>"
| "hand_append Dealer_ref c s = s\<lparr>dealer := (dealer s)\<lparr>hand := hand (dealer s) @ [c]\<rparr>\<rparr>"

text \<open>
  Assigning \<open>entity.money\<close>. Every assignment in the program follows a test or a read
  that excludes the dealer.
\<close>

fun set_money :: "eref \<Rightarrow> int \<Rightarrow> state \<Rightarrow> state" where
  "set_money Player_ref m s = s\<lparr>player := (player s)\<lparr>money := m\<rparr>\<rparr>"
| "set_money Player_split_ref m s = s\<lparr>player_split := (player_split s)\<lparr>money := m\<rparr>\<rparr>"
| "set_money Dealer_ref m s = s"

text \<open>
  A call returns a value or raises, and leaves a state either way. \<open>and_then\<close> runs
  the rest of a body after a call that returned.
\<close>

definition and_then ::
  "(error + 'a) \<times> state \<Rightarrow> ('a \<Rightarrow> state \<Rightarrow> (error + 'b) \<times> state) \<Rightarrow> (error + 'b) \<times> state" where
  "and_then r f = (case r of (Inl e, s) \<Rightarrow> (Inl e, s) | (Inr a, s) \<Rightarrow> f a s)"

lemma and_then_cong [fundef_cong]:
  "r = r' \<Longrightarrow> (\<And>a s. r' = (Inr a, s) \<Longrightarrow> f a s = f' a s) \<Longrightarrow> and_then r f = and_then r' f'"
  by (auto simp: and_then_def split: prod.splits sum.splits)

text \<open>\<open>print(x)\<close> writes \<open>x\<close> and a newline; \<open>input(prompt)\<close> writes the prompt and reads a
  line, raising \<open>EOFError\<close> when none is left; \<open>self.deck.pop()\<close> takes the last card.\<close>

definition print :: "string \<Rightarrow> state \<Rightarrow> state" where
  "print x s = s\<lparr>stdout := stdout s @ [x @ ''\<newline>'']\<rparr>"

definition input :: "string \<Rightarrow> state \<Rightarrow> (error + string) \<times> state" where
  "input prompt s =
     (case stdin s of
        [] \<Rightarrow> (Inl EOFError, s\<lparr>stdout := stdout s @ [prompt]\<rparr>)
      | l # ls \<Rightarrow> (Inr l, s\<lparr>stdin := ls, stdout := stdout s @ [prompt]\<rparr>))"

definition deck_pop :: "state \<Rightarrow> (error + card) \<times> state" where
  "deck_pop s =
     (if deck s = [] then (Inl IndexError, s)
      else (Inr (last (deck s)), s\<lparr>deck := butlast (deck s)\<rparr>))"

definition read_money :: "eref \<Rightarrow> state \<Rightarrow> (error + int) \<times> state" where
  "read_money e s = (ref_money s e, s)"

section \<open>Display\<close>

definition print_total :: "eref \<Rightarrow> bool \<Rightarrow> state \<Rightarrow> state" where
  "print_total e show_dealer_tot s =
     (if lower (ref_name s e) = ''dealer''
      then (if \<not> show_dealer_tot then print ''Dealer hand total: ???'' s
            else print (''Dealer hand total: '' @ '' '' @ str_int (get_hand_value (dealer s))) s)
      else print (ref_name s e @ '' hand total: '' @ '' '' @ str_int (ref_value s e)) s)"

text \<open>\<open>print(entity.show_all_cards(hide_first))\<close>\<close>

definition print_cards :: "eref \<Rightarrow> bool \<Rightarrow> state \<Rightarrow> (error + unit) \<times> state" where
  "print_cards e hide_first s =
     (case ref_show s e hide_first of
        Inl err \<Rightarrow> (Inl err, s)
      | Inr txt \<Rightarrow> (Inr (), print txt s))"

definition display_scores ::
  "bool \<Rightarrow> bool \<Rightarrow> bool \<Rightarrow> bool \<Rightarrow> state \<Rightarrow> (error + unit) \<times> state" where
  "display_scores flag_dealer show_dealer show_player_main show_player_split s =
     and_then
       (if show_dealer
        then print_cards Dealer_ref (\<not> flag_dealer) (print_total Dealer_ref flag_dealer s)
        else (Inr (), s))
       (\<lambda>_ s1.
     and_then
       (if show_player_main
        then print_cards Player_ref False (print_total Player_ref False s1)
        else (Inr (), s1))
       (\<lambda>_ s2.
        if show_player_split \<and> split s2
        then print_cards Player_split_ref False (print_total Player_split_ref False s2)
        else (Inr (), s2)))"

section \<open>The player's operations\<close>

definition player_or_split :: "eref \<Rightarrow> state \<Rightarrow> bool" where
  "player_or_split e s = (e = Player_ref)"

definition entity_hit :: "eref \<Rightarrow> state \<Rightarrow> (error + unit) \<times> state" where
  "entity_hit e s =
     and_then (deck_pop s) (\<lambda>c s1.
       let s2 = print (ref_name s1 e @ '' chooses a card\<newline>'') s1;
           s3 = print (ref_name s2 e @ '' draws '' @ str_rank (rank c) @ '' of '' @ suit c
                       @ ''\<newline>'') s2;
           s4 = hand_append e c s3
       in display_scores False True True True s4)"

text \<open>
  \<open>entity_bet\<close>: a dealer returns \<open>None\<close> at once; otherwise the loop asks until the
  line read is \<open>Q\<close> (\<open>sys.exit()\<close>) or an amount within range. \<open>ValueError\<close> from
  \<open>int\<close> is caught and the loop asks again.
\<close>

function bet_loop :: "eref \<Rightarrow> int \<Rightarrow> state \<Rightarrow> (error + int option) \<times> state" where
  "bet_loop e amt s =
     and_then
       (input ''> ''
          (print (''Enter an amount from $1 - $'' @ str_int amt @ '' or press (Q)uit.'') s))
       (\<lambda>line s1.
          let money_to_bet = upper (strip line)
          in if money_to_bet = ''Q''
             then (Inl SystemExit,
                   print ''..or maybe you can't actually play :)'' (print ''Thanks for playing.'' s1))
             else (case py_int money_to_bet of
                     None \<Rightarrow> bet_loop e amt (print ''Enter a valid amount.\<newline>'' s1)
                   | Some m \<Rightarrow>
                       if 1 \<le> m \<and> m \<le> amt then (Inr (Some m), set_money e m s1)
                       else bet_loop e amt (print ''Amount not within range.\<newline>'' s1)))"
  by pat_completeness auto
termination
  by (relation "measure (\<lambda>(e, amt, s). length (stdin s))")
     (auto simp: input_def print_def split: list.splits)

definition entity_bet :: "eref \<Rightarrow> int \<Rightarrow> state \<Rightarrow> (error + int option) \<times> state" where
  "entity_bet e amt s = (if e = Dealer_ref then (Inr None, s) else bet_loop e amt s)"

definition entity_stand :: "eref \<Rightarrow> state \<Rightarrow> state" where
  "entity_stand e s = print (ref_name s e @ '' chooses to stand down...'') s"

definition entity_double_down :: "eref \<Rightarrow> state \<Rightarrow> (error + unit) \<times> state" where
  "entity_double_down e s =
     and_then
       (read_money e (print (''\<newline>'' @ ref_name s e @ '' chooses to double down...'') s))
       (\<lambda>m s1.
          let new_bet = m * 2;
              s2 = print (ref_name s1 e @ CHR 0x27 # ''s bet has been increased by $'' @ str_int m
                          @ '' to $'' @ str_int new_bet @ ''.\<newline>'') s1;
              s3 = set_money e new_bet s2
          in and_then (entity_hit e s3) (\<lambda>_ s4.
               if ref_value s4 e > 21 then (Inr (), s4)
               else (Inr (), entity_stand e s4)))"

definition entity_split :: "state \<Rightarrow> (error + unit) \<times> state" where
  "entity_split s =
     (let s1 = print (name (player s) @ '' decided to split...'') (s\<lparr>split := True\<rparr>)
      in if hand (player s1) = [] then (Inl IndexError, s1)
         else
           (let c = last (hand (player s1));
                s2 = s1\<lparr>player := (player s1)\<lparr>hand := butlast (hand (player s1))\<rparr>\<rparr>
            in and_then (deck_pop s2) (\<lambda>c2 s3.
                 let s4 = s3\<lparr>player_split :=
                             (player_split s3)\<lparr>hand := hand (player_split s3) @ [c, c2]\<rparr>\<rparr>;
                     s5 = s4\<lparr>player_split := (player_split s4)\<lparr>money := money (player s4)\<rparr>\<rparr>;
                     s6 = print (''\<newline>'' @ name (player_split s5) @ '' has bet with $''
                                 @ str_int (money (player s5))) s5
                 in and_then (deck_pop s6) (\<lambda>c3 s7.
                      (Inr (), print [] (hand_append Player_ref c3 s7))))))"

text \<open>
  The list \<open>moves\<close> that \<open>entity_possible_moves\<close> builds before it prompts. The
  conjunction is evaluated left to right, so \<open>entity.money\<close> is read only for a
  two-card hand.
\<close>

definition possible_moves :: "eref \<Rightarrow> state \<Rightarrow> error + string list" where
  "possible_moves e s =
     (let moves = [''(H)it'', ''(S)tand'']
      in if length (ref_hand s e) = 2
         then (case ref_money s e of
                 Inl err \<Rightarrow> Inl err
               | Inr m \<Rightarrow>
                   if start_amount s - m \<ge> m \<and> e = Player_ref \<and> \<not> split s
                   then (let moves = moves @ [''(D)ouble down'']
                         in if str_rank (rank (ref_hand s e ! 0)) = str_rank (rank (ref_hand s e ! 1))
                            then Inr (moves @ [''(X)split''])
                            else Inr moves)
                   else Inr moves)
         else Inr moves)"

text \<open>The prompt loop of \<open>entity_possible_moves\<close>.\<close>

function choose_move :: "string list \<Rightarrow> string \<Rightarrow> state \<Rightarrow> (error + string) \<times> state" where
  "choose_move moves prompt s =
     and_then (input prompt s) (\<lambda>line s1.
       let player_choice = upper (strip line)
       in if player_choice \<in> set [''H'', ''S''] then (Inr player_choice, s1)
          else if player_choice = ''D'' \<and> ''(D)ouble down'' \<in> set moves
            then (Inr player_choice, s1)
          else if player_choice = ''X'' \<and> ''(X)split'' \<in> set moves
            then (Inr player_choice, s1)
          else choose_move moves prompt (print ''Enter a valid choice.'' s1))"
  by pat_completeness auto
termination
  by (relation "measure (\<lambda>(moves, prompt, s). length (stdin s))")
     (auto simp: input_def print_def split: list.splits)

declare choose_move.simps [simp del]
declare bet_loop.simps [simp del]

definition entity_possible_moves :: "eref \<Rightarrow> state \<Rightarrow> (error + string) \<times> state" where
  "entity_possible_moves e s =
     (case possible_moves e s of
        Inl err \<Rightarrow> (Inl err, s)
      | Inr moves \<Rightarrow> choose_move moves (join '', '' moves @ ''> '') s)"

subsection \<open>What the operations leave alone\<close>

lemma and_then_cases:
  assumes "and_then r f = (x, s')"
  obtains (raised) e where "r = (Inl e, s')" and "x = Inl e"
        | (returned) a s1 where "r = (Inr a, s1)" and "f a s1 = (x, s')"
  using assms by (auto simp: and_then_def split: prod.splits sum.splits)

lemma print_frame [simp]:
  "stdin (print x s) = stdin s" "deck (print x s) = deck s"
  "player (print x s) = player s" "dealer (print x s) = dealer s"
  "player_split (print x s) = player_split s" "split (print x s) = split s"
  "start_amount (print x s) = start_amount s" "player_name (print x s) = player_name s"
  "stdout (print x s) = stdout s @ [x @ ''\<newline>'']"
  by (simp_all add: print_def)

lemma print_ref [simp]:
  "ref_hand (print x s) e = ref_hand s e" "ref_value (print x s) e = ref_value s e"
  "ref_limit (print x s) e = ref_limit s e" "ref_name (print x s) e = ref_name s e"
  "ref_money (print x s) e = ref_money s e" "ref_show (print x s) e h = ref_show s e h"
  by (cases e; simp)+

lemma print_total_frame [simp]:
  "stdin (print_total e b s) = stdin s" "deck (print_total e b s) = deck s"
  "player (print_total e b s) = player s" "dealer (print_total e b s) = dealer s"
  "player_split (print_total e b s) = player_split s" "split (print_total e b s) = split s"
  "start_amount (print_total e b s) = start_amount s"
  "player_name (print_total e b s) = player_name s"
  by (simp_all add: print_total_def)

lemma print_total_ref [simp]:
  "ref_hand (print_total e' b s) e = ref_hand s e" "ref_value (print_total e' b s) e = ref_value s e"
  "ref_limit (print_total e' b s) e = ref_limit s e" "ref_name (print_total e' b s) e = ref_name s e"
  "ref_money (print_total e' b s) e = ref_money s e"
  "ref_show (print_total e' b s) e h = ref_show s e h"
  by (simp_all add: print_total_def)

text \<open>Two states that differ at most in what has been written to the console.\<close>

definition same_but_stdout :: "state \<Rightarrow> state \<Rightarrow> bool" where
  "same_but_stdout s s' \<longleftrightarrow> s' = s\<lparr>stdout := stdout s'\<rparr>"

lemma same_but_stdout_refl [simp]: "same_but_stdout s s"
  by (simp add: same_but_stdout_def)

lemma same_but_stdout_trans:
  "same_but_stdout s s1 \<Longrightarrow> same_but_stdout s1 s2 \<Longrightarrow> same_but_stdout s s2"
  unfolding same_but_stdout_def by (metis state.update_convs(9) state.surjective)

lemma same_but_stdoutD:
  assumes "same_but_stdout s s'"
  shows "stdin s' = stdin s" "deck s' = deck s" "player s' = player s" "dealer s' = dealer s"
    "player_split s' = player_split s" "split s' = split s" "start_amount s' = start_amount s"
    "player_name s' = player_name s"
proof -
  from assms have eq: "s' = s\<lparr>stdout := stdout s'\<rparr>"
    by (simp add: same_but_stdout_def)
  show "stdin s' = stdin s" by (subst eq) simp
  show "deck s' = deck s" by (subst eq) simp
  show "player s' = player s" by (subst eq) simp
  show "dealer s' = dealer s" by (subst eq) simp
  show "player_split s' = player_split s" by (subst eq) simp
  show "split s' = split s" by (subst eq) simp
  show "start_amount s' = start_amount s" by (subst eq) simp
  show "player_name s' = player_name s" by (subst eq) simp
qed

lemma same_but_stdout_ref:
  assumes "same_but_stdout s s'"
  shows "ref_hand s' e = ref_hand s e" "ref_value s' e = ref_value s e"
    "ref_limit s' e = ref_limit s e" "ref_name s' e = ref_name s e"
    "ref_money s' e = ref_money s e" "ref_show s' e h = ref_show s e h"
  using same_but_stdoutD [OF assms] by (cases e; simp)+

lemma print_same [simp]: "same_but_stdout s (print x s)"
  by (simp add: same_but_stdout_def print_def)

lemma print_total_same [simp]: "same_but_stdout s (print_total e b s)"
  by (simp add: print_total_def)

lemma print_cards_same: "print_cards e h s = (r, s') \<Longrightarrow> same_but_stdout s s'"
  by (auto simp: print_cards_def split: sum.splits)

lemma display_scores_same:
  assumes "display_scores a b c d s = (r, s')"
  shows "same_but_stdout s s'"
proof -
  have step: "same_but_stdout t t'"
    if "(if g then print_cards e h (print_total e h' t) else (Inr (), t)) = (x, t')"
    for g e h h' t x t'
  proof (cases g)
    case True
    with that have "same_but_stdout (print_total e h' t) t'"
      by (simp add: print_cards_same)
    then show ?thesis
      by (rule same_but_stdout_trans [OF print_total_same])
  next
    case False
    with that show ?thesis by simp
  qed
  from assms show ?thesis
    unfolding display_scores_def
    by (elim and_then_cases) (blast intro: step same_but_stdout_trans dest: step)+
qed

section \<open>The dealer's turn\<close>

function dealer_play :: "state \<Rightarrow> (error + unit) \<times> state" where
  "dealer_play s =
     (if get_hand_value (dealer s) < 17
      then and_then (deck_pop (print ''Dealer hits...'' s)) (\<lambda>c s1.
             and_then (display_scores False True True True (hand_append Dealer_ref c s1)) (\<lambda>_ s2.
               if get_hand_value (dealer s2) > limit (dealer s2) + 4 then (Inr (), s2)
               else and_then (input ''Press Enter to continue...'' s2) (\<lambda>_ s3.
                      dealer_play (print ''\<newline>'' s3))))
      else (Inr (), s))"
  by pat_completeness auto
termination
proof (relation "measure (\<lambda>s. length (deck s))")
  show "wf (measure (\<lambda>s. length (deck s)))" by simp
next
  fix s c s1 u s2 l s3
  assume pop: "deck_pop (print ''Dealer hits...'' s) = (Inr c, s1)"
    and disp: "display_scores False True True True (hand_append Dealer_ref c s1) = (Inr u, s2)"
    and inp: "input ''Press Enter to continue...'' s2 = (Inr l, s3)"
  from pop have "length (deck s1) < length (deck s)"
    by (auto simp: deck_pop_def split: if_splits)
  moreover from disp have "deck s2 = deck s1"
    by (auto dest!: display_scores_same same_but_stdoutD(2))
  moreover from inp have "deck s3 = deck s2"
    by (auto simp: input_def split: list.splits)
  ultimately show "(print ''\<newline>'' s3, s) \<in> measure (\<lambda>s. length (deck s))"
    by simp
qed

declare dealer_play.simps [simp del]


section \<open>A hand's turn\<close>

lemma input_consumes:
  "input p s = (Inr l, s') \<Longrightarrow> length (stdin s') < length (stdin s)"
  by (auto simp: input_def split: list.splits)

lemma choose_move_consumes:
  "choose_move moves p s = (Inr m, s') \<Longrightarrow> length (stdin s') < length (stdin s)"
proof (induction moves p s rule: choose_move.induct)
  case (1 moves prompt s)
  from "1.prems" [unfolded choose_move.simps [of moves prompt s]]
  obtain line s1 where inp: "input prompt s = (Inr line, s1)"
    and rest: "(let player_choice = upper (strip line)
       in if player_choice \<in> set [''H'', ''S''] then (Inr player_choice, s1)
          else if player_choice = ''D'' \<and> ''(D)ouble down'' \<in> set moves
            then (Inr player_choice, s1)
          else if player_choice = ''X'' \<and> ''(X)split'' \<in> set moves
            then (Inr player_choice, s1)
          else choose_move moves prompt (print ''Enter a valid choice.'' s1)) = (Inr m, s')"
    by (elim and_then_cases) auto
  from inp have less: "length (stdin s1) < length (stdin s)"
    by (rule input_consumes)
  show ?case
  proof (cases "s' = s1")
    case True
    with less show ?thesis by simp
  next
    case False
    with rest have rec: "choose_move moves prompt (print ''Enter a valid choice.'' s1) = (Inr m, s')"
      and c: "upper (strip line) \<notin> set [''H'', ''S'']"
         "\<not> (upper (strip line) = ''D'' \<and> ''(D)ouble down'' \<in> set moves)"
         "\<not> (upper (strip line) = ''X'' \<and> ''(X)split'' \<in> set moves)"
      by (auto simp: Let_def split: if_splits)
    from "1.IH" [OF inp refl c rec] less show ?thesis by simp
  qed
qed

lemma entity_possible_moves_consumes:
  "entity_possible_moves e s = (Inr m, s') \<Longrightarrow> length (stdin s') < length (stdin s)"
  by (auto simp: entity_possible_moves_def split: sum.splits dest: choose_move_consumes)

lemma deck_pop_stdin: "deck_pop s = (r, s') \<Longrightarrow> stdin s' = stdin s"
  by (auto simp: deck_pop_def split: if_splits)

lemma hand_append_stdin [simp]: "stdin (hand_append e c s) = stdin s"
  by (cases e) simp_all

lemma set_money_stdin [simp]: "stdin (set_money e c s) = stdin s"
  by (cases e) simp_all

lemma entity_hit_stdin: "entity_hit e s = (r, s') \<Longrightarrow> stdin s' = stdin s"
  unfolding entity_hit_def
  by (elim and_then_cases)
     (auto simp: Let_def dest!: deck_pop_stdin display_scores_same same_but_stdoutD(1))

lemma entity_split_stdin: "entity_split s = (r, s') \<Longrightarrow> stdin s' = stdin s"
  unfolding entity_split_def Let_def
  by (auto split: if_splits elim!: and_then_cases dest!: deck_pop_stdin)

text \<open>
  The \<open>while True\<close> loop of \<open>entity_play\<close>. The moves offered are always those of
  \<open>self.player\<close>, whichever hand is playing.
\<close>

function play_loop :: "eref \<Rightarrow> state \<Rightarrow> (error + unit) \<times> state" where
  "play_loop e s =
     (if ref_value s e > ref_limit s e then (Inr (), s)
      else and_then
             (entity_possible_moves Player_ref
                (print (''\<newline>----'' @ ref_name s e @ '' pick a move---\<newline>'') s))
             (\<lambda>move s1.
                if upper move = ''S'' then (Inr (), entity_stand e s1)
                else if upper move = ''D'' then entity_double_down e s1
                else and_then (if upper move = ''H'' then entity_hit e s1 else (Inr (), s1))
                       (\<lambda>_ s2.
                          if upper move = ''X''
                          then and_then (entity_split s2) (\<lambda>_ s3.
                                 and_then (display_scores False True True True s3) (\<lambda>_ s4.
                                   if e = Player_ref
                                      \<and> get_hand_value (player s4) < limit (player s4)
                                   then play_loop e s4
                                   else (Inr (), s4)))
                          else play_loop e s2)))"
  by pat_completeness auto
termination
proof (relation "measure (\<lambda>(e, s). length (stdin s))")
  show "wf (measure (\<lambda>(e, s). length (stdin s)))" by simp
next
  fix e s move s1 u s2 v s3 w s4
  assume "entity_possible_moves Player_ref
            (print (''\<newline>----'' @ ref_name s e @ '' pick a move---\<newline>'') s) = (Inr move, s1)"
    and "(if upper move = ''H'' then entity_hit e s1 else (Inr (), s1)) = (Inr u, s2)"
    and "entity_split s2 = (Inr v, s3)"
    and "display_scores False True True True s3 = (Inr w, s4)"
  then have "length (stdin s1) < length (stdin s)" "stdin s2 = stdin s1" "stdin s3 = stdin s2"
    "stdin s4 = stdin s3"
    by (auto dest!: entity_possible_moves_consumes entity_hit_stdin entity_split_stdin
          display_scores_same same_but_stdoutD(1) split: if_splits)
  then show "((e, s4), (e, s)) \<in> measure (\<lambda>(e, s). length (stdin s))"
    by simp
next
  fix e s move s1 u s2
  assume "entity_possible_moves Player_ref
            (print (''\<newline>----'' @ ref_name s e @ '' pick a move---\<newline>'') s) = (Inr move, s1)"
    and "(if upper move = ''H'' then entity_hit e s1 else (Inr (), s1)) = (Inr u, s2)"
  then have "length (stdin s1) < length (stdin s)" "stdin s2 = stdin s1"
    by (auto dest!: entity_possible_moves_consumes entity_hit_stdin split: if_splits)
  then show "((e, s2), (e, s)) \<in> measure (\<lambda>(e, s). length (stdin s))"
    by simp
qed

declare play_loop.simps [simp del]

definition entity_play :: "eref \<Rightarrow> state \<Rightarrow> (error + unit) \<times> state" where
  "entity_play e s =
     (if \<not> player_or_split e s \<and> \<not> split s then (Inr (), s) else play_loop e s)"

section \<open>Settlement\<close>

definition check_if_dealer_plays :: "state \<Rightarrow> (error + unit) \<times> state" where
  "check_if_dealer_plays s =
     (if get_hand_value (player s) \<le> limit (player s) then dealer_play s
      else if split s \<and> get_hand_value (player_split s) \<le> limit (player_split s)
        then dealer_play s
      else (Inr (), s))"

definition check_who_wins :: "eref \<Rightarrow> state \<Rightarrow> (error + unit) \<times> state" where
  "check_who_wins e s =
     (let flag = player_or_split e s
      in if \<not> player_or_split e s \<and> \<not> split s then (Inr (), s)
         else
           (let entity_value = ref_value s e;
                dealer_value = get_hand_value (dealer s)
            in and_then (display_scores True True flag (\<not> flag) s) (\<lambda>_ s1.
                 if entity_value > ref_limit s1 e
                 then and_then (read_money e (print (''\<newline>'' @ ref_name s1 e @ '' goes bust'') s1))
                        (\<lambda>m s2.
                           let s3 = print (ref_name s2 e @ '' lost $'' @ str_int m @ ''!'') s2
                           in and_then (read_money e s3) (\<lambda>m' s4.
                                (Inr (), s4\<lparr>start_amount := start_amount s4 - m'\<rparr>)))
                 else if dealer_value > 21
                 then and_then (read_money e s1) (\<lambda>m s2.
                        let s3 = print (''Dealer goes bust! '' @ ref_name s2 e @ '' wins $''
                                        @ str_int m) s2
                        in and_then (read_money e s3) (\<lambda>m' s4.
                             (Inr (), s4\<lparr>start_amount := start_amount s4 + m'\<rparr>)))
                 else if entity_value < dealer_value
                 then (let s2 = print (''\<newline>Dealer'' @ CHR 0x27 # ''s hand is ''
                                       @ str_int dealer_value @ '', '' @ ref_name s1 e
                                       @ CHR 0x27 # ''s hand is '' @ str_int entity_value
                                       @ ''\<newline>'') s1
                       in and_then (read_money e s2) (\<lambda>m s3.
                            let s4 = print (ref_name s3 e @ '' lost $'' @ str_int m @ ''!'') s3
                            in and_then (read_money e s4) (\<lambda>m' s5.
                                 (Inr (), s5\<lparr>start_amount := start_amount s5 - m'\<rparr>))))
                 else if entity_value > dealer_value
                 then and_then (read_money e s1) (\<lambda>m s2.
                        let s3 = print (ref_name s2 e @ '' won $'' @ str_int m) s2
                        in and_then (read_money e s3) (\<lambda>m' s4.
                             (Inr (), s4\<lparr>start_amount := start_amount s4 + m'\<rparr>)))
                 else if entity_value = dealer_value
                 then (Inr (), print (''It'' @ CHR 0x27 # ''s a tie, the bet is returned to you.'') s1)
                 else (Inr (), s1))))"

section \<open>States whose hands can be displayed\<close>

text \<open>
  \<open>show_all_cards\<close> raises on an empty hand. A card whose rank and suit hold no
  newline is drawn on four lines, as every card of the deck is.
\<close>

definition plain_card :: "card \<Rightarrow> bool" where
  "plain_card c \<longleftrightarrow>
     CHR ''\<newline>'' \<notin> set (suit c) \<and> CHR ''\<newline>'' \<notin> set (str_rank (rank c))"

definition can_show :: "'a entity_scheme \<Rightarrow> bool" where
  "can_show e \<longleftrightarrow> hand e \<noteq> [] \<and> list_all plain_card (hand e)"

definition showable :: "state \<Rightarrow> bool" where
  "showable s \<longleftrightarrow>
     can_show (dealer s) \<and> can_show (player s) \<and> (split s \<longrightarrow> can_show (player_split s))"

section \<open>The session\<close>

definition RULES :: string where
  "RULES =
     ''\<newline>Blackjack, by Ede Chinedu\<newline>''
     @ ''  Rules:\<newline>''
     @ ''    -> Try to get as close to 21 without going over.\<newline>''
     @ ''    -> Kings, Queens and Jacks are woth 10 points.\<newline>''
     @ ''    -> Aces are worth 1 or 11 points.\<newline>''
     @ ''    -> Cards 2 through 10 are worth their face value.\<newline>''
     @ ''    -> In case of a tie, the bet is returned to the player.\<newline>''
     @ ''    -> The dealer stops hitting at 17.\<newline>''
     @ ''    \<newline>''
     @ ''    Commands:\<newline>''
     @ ''    -> (H)it to take another card.\<newline>''
     @ ''    -> (S)tand to stop taking cards.\<newline>''
     @ ''    -> (X)split to form two independent hands and bet exactly the same\<newline>''
     @ ''        bet on initial hand. Available on first play if both cards are\<newline>''
     @ ''        equal by rank.\<newline>''
     @ ''    -> (D)ouble down to increase your bet but must hit exactly one\<newline>''
     @ ''        more time before standing (available on first play).\<newline>''
     @ [CHR 0x09]"

definition reset :: "(card list \<Rightarrow> card list) \<Rightarrow> state \<Rightarrow> (error + unit) \<times> state" where
  "reset shuffle s =
     and_then (deck_pop (s\<lparr>deck := make_cards shuffle\<rparr>)) (\<lambda>c1 s1.
     and_then (deck_pop s1) (\<lambda>c2 s2.
     and_then (deck_pop (s2\<lparr>player := Player [c1, c2] 0 (player_name s2)\<rparr>)) (\<lambda>c3 s3.
     and_then (deck_pop s3) (\<lambda>c4 s4.
       (Inr (),
        s4\<lparr>dealer := Dealer [c3, c4],
           player_split := Player [] 0 (player_name s4 @ '' hand_two''),
           split := False\<rparr>)))))"

subsection \<open>Input is only ever consumed\<close>

text \<open>Every round reads a line, which is why the session loop is a total function.\<close>

lemma bet_loop_consumes:
  "bet_loop e amt s = (Inr v, s') \<Longrightarrow> length (stdin s') < length (stdin s)"
proof (induction e amt s rule: bet_loop.induct)
  case (1 e amt s)
  let ?p = "print (''Enter an amount from $1 - $'' @ str_int amt @ '' or press (Q)uit.'') s"
  from "1.prems" [unfolded bet_loop.simps [of e amt s]]
  obtain line s1 where inp: "input ''> '' ?p = (Inr line, s1)"
    and rest: "(let money_to_bet = upper (strip line)
          in if money_to_bet = ''Q''
             then (Inl SystemExit,
                   print ''..or maybe you can't actually play :)'' (print ''Thanks for playing.'' s1))
             else (case py_int money_to_bet of
                     None \<Rightarrow> bet_loop e amt (print ''Enter a valid amount.\<newline>'' s1)
                   | Some m \<Rightarrow>
                       if 1 \<le> m \<and> m \<le> amt then (Inr (Some m), set_money e m s1)
                       else bet_loop e amt (print ''Amount not within range.\<newline>'' s1))) = (Inr v, s')"
    by (elim and_then_cases) auto
  from inp have less: "length (stdin s1) < length (stdin s)"
    by (auto dest: input_consumes)
  from rest have q: "upper (strip line) \<noteq> ''Q''"
    by (auto simp: Let_def split: if_splits)
  show ?case
  proof (cases "py_int (upper (strip line))")
    case None
    with rest q have "bet_loop e amt (print ''Enter a valid amount.\<newline>'' s1) = (Inr v, s')"
      by (simp add: Let_def)
    from "1.IH"(1) [OF inp refl q None this] less show ?thesis by simp
  next
    case (Some m)
    show ?thesis
    proof (cases "1 \<le> m \<and> m \<le> amt")
      case True
      with rest q Some have "s' = set_money e m s1"
        by (simp add: Let_def)
      with less show ?thesis by simp
    next
      case False
      with rest q Some have "bet_loop e amt (print ''Amount not within range.\<newline>'' s1) = (Inr v, s')"
        by (simp add: Let_def)
      from "1.IH"(2) [OF inp refl q Some False this] less show ?thesis by simp
    qed
  qed
qed

lemma entity_bet_consumes:
  "entity_bet Player_ref amt s = (Inr v, s') \<Longrightarrow> length (stdin s') < length (stdin s)"
  by (simp add: entity_bet_def bet_loop_consumes)

lemma entity_double_down_stdin: "entity_double_down e s = (r, s') \<Longrightarrow> stdin s' = stdin s"
  unfolding entity_double_down_def read_money_def Let_def
  by (auto elim!: and_then_cases dest!: entity_hit_stdin simp: entity_stand_def split: if_splits)

lemma play_loop_stdin:
  "play_loop e s = (Inr u, s') \<Longrightarrow> length (stdin s') \<le> length (stdin s)"
proof (induction e s rule: play_loop.induct)
  case (1 e s)
  let ?p = "print (''\<newline>----'' @ ref_name s e @ '' pick a move---\<newline>'') s"
  show ?case
  proof (cases "ref_value s e > ref_limit s e")
    case True
    with "1.prems" show ?thesis by (simp add: play_loop.simps [of e s])
  next
    case False
    with "1.prems" [unfolded play_loop.simps [of e s]]
    obtain move s1 where pm: "entity_possible_moves Player_ref ?p = (Inr move, s1)"
      and rest: "(if upper move = ''S'' then (Inr (), entity_stand e s1)
                else if upper move = ''D'' then entity_double_down e s1
                else and_then (if upper move = ''H'' then entity_hit e s1 else (Inr (), s1))
                       (\<lambda>_ s2.
                          if upper move = ''X''
                          then and_then (entity_split s2) (\<lambda>_ s3.
                                 and_then (display_scores False True True True s3) (\<lambda>_ s4.
                                   if e = Player_ref
                                      \<and> get_hand_value (player s4) < limit (player s4)
                                   then play_loop e s4
                                   else (Inr (), s4)))
                          else play_loop e s2)) = (Inr u, s')"
      by (auto elim!: and_then_cases)
    from pm have l1: "length (stdin s1) < length (stdin s)"
      by (auto dest: entity_possible_moves_consumes)
    consider (S) "upper move = ''S''" | (D) "upper move \<noteq> ''S''" "upper move = ''D''"
      | (other) "upper move \<noteq> ''S''" "upper move \<noteq> ''D''"
      by blast
    then show ?thesis
    proof cases
      case S
      with rest l1 show ?thesis by (auto simp: entity_stand_def)
    next
      case D
      with rest have "entity_double_down e s1 = (Inr u, s')" by simp
      from entity_double_down_stdin [OF this] l1 show ?thesis by simp
    next
      case other
      with rest obtain x s2 where
        hit: "(if upper move = ''H'' then entity_hit e s1 else (Inr (), s1)) = (Inr x, s2)"
        and rest2: "(if upper move = ''X''
                          then and_then (entity_split s2) (\<lambda>_ s3.
                                 and_then (display_scores False True True True s3) (\<lambda>_ s4.
                                   if e = Player_ref
                                      \<and> get_hand_value (player s4) < limit (player s4)
                                   then play_loop e s4
                                   else (Inr (), s4)))
                          else play_loop e s2) = (Inr u, s')"
        by (auto elim!: and_then_cases)
      from hit have l2: "stdin s2 = stdin s1"
        by (auto dest: entity_hit_stdin split: if_splits)
      show ?thesis
      proof (cases "upper move = ''X''")
        case False
        with rest2 have "play_loop e s2 = (Inr u, s')" by simp
        from "1.IH"(2) [OF \<open>\<not> ref_limit s e < ref_value s e\<close> pm other hit False this] l1 l2
        show ?thesis by simp
      next
        case True
        with rest2 obtain y s3 z s4 where sp: "entity_split s2 = (Inr y, s3)"
          and di: "display_scores False True True True s3 = (Inr z, s4)"
          and rest3: "(if e = Player_ref \<and> get_hand_value (player s4) < limit (player s4)
                       then play_loop e s4 else (Inr (), s4)) = (Inr u, s')"
          by (auto elim!: and_then_cases)
        from sp di have l4: "stdin s4 = stdin s2"
          by (auto dest!: entity_split_stdin display_scores_same same_but_stdoutD(1))
        show ?thesis
        proof (cases "e = Player_ref \<and> get_hand_value (player s4) < limit (player s4)")
          case False
          with rest3 l1 l2 l4 show ?thesis by auto
        next
          case c: True
          with rest3 have "play_loop e s4 = (Inr u, s')" by simp
          from "1.IH"(1) [OF \<open>\<not> ref_limit s e < ref_value s e\<close> pm other hit True sp di c this]
            l1 l2 l4
          show ?thesis by simp
        qed
      qed
    qed
  qed
qed

lemma entity_play_stdin:
  "entity_play e s = (Inr u, s') \<Longrightarrow> length (stdin s') \<le> length (stdin s)"
  by (auto simp: entity_play_def dest: play_loop_stdin split: if_splits)

lemma dealer_play_stdin:
  "dealer_play s = (Inr u, s') \<Longrightarrow> length (stdin s') \<le> length (stdin s)"
proof (induction s rule: dealer_play.induct)
  case (1 s)
  show ?case
  proof (cases "get_hand_value (dealer s) < 17")
    case False
    with "1.prems" show ?thesis by (simp add: dealer_play.simps [of s])
  next
    case True
    with "1.prems" [unfolded dealer_play.simps [of s]]
    obtain c s1 x s2 where pop: "deck_pop (print ''Dealer hits...'' s) = (Inr c, s1)"
      and di: "display_scores False True True True (hand_append Dealer_ref c s1) = (Inr x, s2)"
      and rest: "(if get_hand_value (dealer s2) > limit (dealer s2) + 4 then (Inr (), s2)
               else and_then (input ''Press Enter to continue...'' s2) (\<lambda>_ s3.
                      dealer_play (print ''\<newline>'' s3))) = (Inr u, s')"
      by (auto elim!: and_then_cases)
    from pop di have l2: "stdin s2 = stdin s"
      by (auto dest!: deck_pop_stdin display_scores_same same_but_stdoutD(1))
    show ?thesis
    proof (cases "get_hand_value (dealer s2) > limit (dealer s2) + 4")
      case True
      with rest l2 show ?thesis by simp
    next
      case False
      with rest obtain l s3 where inp: "input ''Press Enter to continue...'' s2 = (Inr l, s3)"
        and rec: "dealer_play (print ''\<newline>'' s3) = (Inr u, s')"
        by (auto elim!: and_then_cases)
      from "1.IH" [OF True pop di False inp rec] input_consumes [OF inp] l2
      show ?thesis by simp
    qed
  qed
qed

lemma check_if_dealer_plays_stdin:
  "check_if_dealer_plays s = (Inr u, s') \<Longrightarrow> length (stdin s') \<le> length (stdin s)"
  by (auto simp: check_if_dealer_plays_def dest: dealer_play_stdin split: if_splits)

lemma check_who_wins_stdin:
  "check_who_wins e s = (r, s') \<Longrightarrow> stdin s' = stdin s"
  unfolding check_who_wins_def Let_def read_money_def
  by (auto elim!: and_then_cases dest!: display_scores_same same_but_stdoutD(1) split: if_splits)

lemma reset_stdin: "reset shuffle s = (r, s') \<Longrightarrow> stdin s' = stdin s"
  unfolding reset_def
  by (auto elim!: and_then_cases dest!: deck_pop_stdin)


subsection \<open>The loop\<close>

text \<open>
  The \<open>while True\<close> loop of \<open>game\<close>. The \<open>i\<close>-th call of \<open>reset\<close> shuffles with
  \<open>shuf i\<close>. \<open>os.system\<close>, which clears the terminal, is outside the program and has
  no part in the state.
\<close>

function game_loop ::
  "(nat \<Rightarrow> card list \<Rightarrow> card list) \<Rightarrow> nat \<Rightarrow> state \<Rightarrow> (error + unit) \<times> state" where
  "game_loop shuf i s =
     (if start_amount s < 1
      then (Inl SystemExit,
            print ''Try to seek professional help for your gambling problems.''
              (print ''Good thing you weren't using real money.''
                 (print ''You've run out of money'' s)))
      else
        and_then
          (entity_bet Player_ref (start_amount s)
             (print (''Money available: $'' @ str_int (start_amount s)) s))
          (\<lambda>amt_to_bet s1.
        and_then
          (display_scores False True True True
             (print (''Player bet $''
                     @ (case amt_to_bet of None \<Rightarrow> ''None'' | Some a \<Rightarrow> str_int a)) s1))
          (\<lambda>_ s2.
        and_then (entity_play Player_ref s2) (\<lambda>_ s3.
        and_then (entity_play Player_split_ref s3) (\<lambda>_ s4.
        and_then (check_if_dealer_plays s4) (\<lambda>_ s5.
        and_then (check_who_wins Player_ref s5) (\<lambda>_ s6.
        and_then (check_who_wins Player_split_ref s6) (\<lambda>_ s7.
        and_then (input ''Press Enter to continue...'' s7) (\<lambda>_ s8.
        and_then (reset (shuf i) (print ''\<newline>'' s8)) (\<lambda>_ s9.
          game_loop shuf (Suc i) s9))))))))))"
  by pat_completeness auto
termination
proof (relation "measure (\<lambda>(shuf, i, s). length (stdin s))")
  show "wf (measure (\<lambda>(shuf, i, s). length (stdin s)))" by simp
next
  fix shuf :: "nat \<Rightarrow> card list \<Rightarrow> card list" and i :: nat and s :: state
    and amt_to_bet s1 x2 s2 x3 s3 x4 s4 x5 s5 x6 s6 x7 s7 x8 s8 x9 s9
  assume "entity_bet Player_ref (start_amount s)
             (print (''Money available: $'' @ str_int (start_amount s)) s) = (Inr amt_to_bet, s1)"
    and "display_scores False True True True
             (print (''Player bet $''
                     @ (case amt_to_bet of None \<Rightarrow> ''None'' | Some a \<Rightarrow> str_int a)) s1)
           = (Inr x2, s2)"
    and "entity_play Player_ref s2 = (Inr x3, s3)"
    and "entity_play Player_split_ref s3 = (Inr x4, s4)"
    and "check_if_dealer_plays s4 = (Inr x5, s5)"
    and "check_who_wins Player_ref s5 = (Inr x6, s6)"
    and "check_who_wins Player_split_ref s6 = (Inr x7, s7)"
    and "input ''Press Enter to continue...'' s7 = (Inr x8, s8)"
    and "reset (shuf i) (print ''\<newline>'' s8) = (Inr x9, s9)"
  then have "length (stdin s1) < length (stdin s)" "stdin s2 = stdin s1"
    "length (stdin s3) \<le> length (stdin s2)" "length (stdin s4) \<le> length (stdin s3)"
    "length (stdin s5) \<le> length (stdin s4)" "stdin s6 = stdin s5" "stdin s7 = stdin s6"
    "length (stdin s8) < length (stdin s7)" "stdin s9 = stdin s8"
    by (auto dest!: entity_bet_consumes display_scores_same same_but_stdoutD(1) entity_play_stdin
          check_if_dealer_plays_stdin check_who_wins_stdin input_consumes reset_stdin)
  then show "((shuf, Suc i, s9), (shuf, i, s)) \<in> measure (\<lambda>(shuf, i, s). length (stdin s))"
    by simp
qed

declare game_loop.simps [simp del]

definition game :: "(nat \<Rightarrow> card list \<Rightarrow> card list) \<Rightarrow> state \<Rightarrow> (error + unit) \<times> state" where
  "game shuf s =
     game_loop shuf 0
       (print (''You have been credited with $'' @ str_int (start_amount s)) (print RULES s))"

text \<open>
  \<open>BlackJack.__init__\<close>: \<open>r\<close> is what \<open>random.randint(1_000, 10_000)\<close> returned, \<open>lines\<close> the
  console input to come. The four \<open>self.deck.pop()\<close> take the last four cards; with fewer
  the constructor raises and there is no object.
\<close>

definition BlackJack ::
  "string \<Rightarrow> int \<Rightarrow> (card list \<Rightarrow> card list) \<Rightarrow> string list \<Rightarrow> error + state" where
  "BlackJack pname r shuffle lines =
     (case rev (make_cards shuffle) of
        c1 # c2 # c3 # c4 # cs \<Rightarrow>
          Inr \<lparr>start_amount = roundup r, deck = rev cs, player_name = pname,
               player = Player [c1, c2] 0 pname, dealer = Dealer [c3, c4],
               player_split = Player [] 0 (pname @ '' hand_two''), split = False,
               stdin = lines, stdout = []\<rparr>
      | _ \<Rightarrow> Inl IndexError)"

section \<open>Hand values\<close>

lemma fold_count_step:
  "fold count_step h (a, v) =
     (a + length (filter is_ace h), v + sum_list (map cvalue h))"
  by (induction h arbitrary: a v) (simp_all add: count_step_def is_ace_def)

lemma promote_funpow: "promote lim k v = (ace_step lim ^^ k) v"
  by (induction k arbitrary: v) (simp_all add: ace_step_def funpow_swap1)

lemma get_hand_value_promote:
  "get_hand_value e =
     promote (limit e) (length (filter is_ace (hand e))) (sum_list (map cvalue (hand e)))"
  by (simp add: get_hand_value_def Let_def fold_count_step promote_funpow)

lemma promote_stuck: "lim < v + 10 \<Longrightarrow> promote lim k v = v"
  by (induction k) simp_all

lemma promote_char:
  "\<exists>k\<le>n. promote lim n v = v + 10 * int k
     \<and> (0 < k \<longrightarrow> promote lim n v \<le> lim)
     \<and> (k < n \<longrightarrow> lim < promote lim n v + 10)"
proof (induction n arbitrary: v)
  case 0
  show ?case by simp
next
  case (Suc n)
  show ?case
  proof (cases "v + 10 \<le> lim")
    case True
    from Suc.IH [of "v + 10"] obtain k where k: "k \<le> n"
      "promote lim n (v + 10) = v + 10 + 10 * int k"
      "0 < k \<longrightarrow> promote lim n (v + 10) \<le> lim"
      "k < n \<longrightarrow> lim < promote lim n (v + 10) + 10"
      by blast
    have "promote lim n (v + 10) \<le> lim"
      using k True by (cases "k = 0") simp_all
    with k True show ?thesis
      by (intro exI [of _ "Suc k"]) simp
  next
    case False
    then have "promote lim (Suc n) v = v"
      by (simp add: promote_stuck)
    with False show ?thesis
      by (intro exI [of _ 0]) simp
  qed
qed

lemma deck_card_value:
  "c \<in> set unshuffled_cards \<Longrightarrow> cvalue c = base_value (rank c)"
  by (auto simp: unshuffled_cards_def cards_of_suit_def suits_def)

lemma deck_base_total:
  "set h \<subseteq> set unshuffled_cards \<Longrightarrow> sum_list (map cvalue h) = base_total h"
proof (induction h)
  case Nil
  show ?case by (simp add: base_total_def)
next
  case (Cons c h)
  then have "cvalue c = base_value (rank c)"
    by (simp add: deck_card_value)
  moreover have "is_ace c \<Longrightarrow> base_value (rank c) = 1"
    by (simp add: is_ace_def)
  ultimately show ?case
    using Cons by (simp add: base_total_def)
qed

text \<open>
  C1. The dealer's hand is scored by \<open>get_hand_value\<close> with \<open>self.limit\<close>, which
  \<open>Dealer.__init__\<close> sets to 17: an ace and a nine in the dealer's hand score 10, since
  20 is above 17, where a ceiling of 21 gives 20; an ace and a king score 11, not 21.
\<close>

theorem dealer_ace_nine_scores_ten:
  "get_hand_value (Dealer [Card (StrRank ''A'') s1 1, Card (IntRank 9) s2 9]) = 10
   \<and> score_spec [Card (StrRank ''A'') s1 1, Card (IntRank 9) s2 9] 21 = 20
   \<and> get_hand_value (Dealer [Card (StrRank ''A'') s1 1, Card (StrRank ''K'') s2 10]) = 11
   \<and> score_spec [Card (StrRank ''A'') s1 1, Card (StrRank ''K'') s2 10] 21 = 21"
  by (simp add: get_hand_value_def Dealer_def count_step_def ace_step_def score_spec_def
        base_total_def is_ace_def)

text \<open>
  C3. A player entity (limit 21) holding cards of the deck scores the sum of the base
  values of its cards (face value, 10 for J, Q, K, 1 for an ace) plus 10 for each of
  \<open>k\<close> promoted aces: every promotion kept the total at or below 21, and an ace is
  left unpromoted only when 10 more would exceed 21. This is \<open>score_spec\<close>, the
  scorer in the specification's words, at ceiling 21, and the five sample hands score
  12, 20, 21, 21, 21.
\<close>

theorem player_hand_value:
  assumes "set h \<subseteq> set unshuffled_cards"
  shows "get_hand_value (Player h m n) = score_spec h 21
    \<and> (\<exists>k\<le>length (filter is_ace h).
          get_hand_value (Player h m n) = base_total h + 10 * int k
          \<and> (0 < k \<longrightarrow> get_hand_value (Player h m n) \<le> 21)
          \<and> (k < length (filter is_ace h) \<longrightarrow> 21 < get_hand_value (Player h m n) + 10))
    \<and> get_hand_value (Player [Card (StrRank ''A'') s1 1, Card (StrRank ''A'') s2 1] m n) = 12
    \<and> get_hand_value (Player [Card (StrRank ''A'') s1 1, Card (IntRank 9) s2 9] m n) = 20
    \<and> get_hand_value
         (Player [Card (StrRank ''A'') s1 1, Card (StrRank ''A'') s2 1, Card (IntRank 9) s3 9] m n)
        = 21
    \<and> get_hand_value (Player [Card (StrRank ''K'') s1 10, Card (StrRank ''A'') s2 1] m n) = 21
    \<and> get_hand_value
         (Player [Card (StrRank ''K'') s1 10, Card (StrRank ''Q'') s2 10, Card (StrRank ''A'') s3 1]
            m n)
        = 21"
proof -
  have v: "get_hand_value (Player h m n) = promote 21 (length (filter is_ace h)) (base_total h)"
    using assms by (simp add: get_hand_value_promote Player_def deck_base_total)
  have "get_hand_value (Player h m n) = score_spec h 21"
    using v by (simp add: score_spec_def)
  moreover have "\<exists>k\<le>length (filter is_ace h).
          get_hand_value (Player h m n) = base_total h + 10 * int k
          \<and> (0 < k \<longrightarrow> get_hand_value (Player h m n) \<le> 21)
          \<and> (k < length (filter is_ace h) \<longrightarrow> 21 < get_hand_value (Player h m n) + 10)"
    unfolding v by (rule promote_char)
  moreover have
    "get_hand_value (Player [Card (StrRank ''A'') s1 1, Card (StrRank ''A'') s2 1] m n) = 12"
    "get_hand_value (Player [Card (StrRank ''A'') s1 1, Card (IntRank 9) s2 9] m n) = 20"
    "get_hand_value
       (Player [Card (StrRank ''A'') s1 1, Card (StrRank ''A'') s2 1, Card (IntRank 9) s3 9] m n)
      = 21"
    "get_hand_value (Player [Card (StrRank ''K'') s1 10, Card (StrRank ''A'') s2 1] m n) = 21"
    "get_hand_value
       (Player [Card (StrRank ''K'') s1 10, Card (StrRank ''Q'') s2 10, Card (StrRank ''A'') s3 1]
          m n)
      = 21"
    by (simp_all add: get_hand_value_def Player_def count_step_def ace_step_def)
  ultimately show ?thesis by blast
qed

theorem player_hand_value_witness:
  "set [Card (StrRank ''K'') (suits ! 0) 10, Card (StrRank ''Q'') (suits ! 2) 10,
        Card (StrRank ''A'') (suits ! 3) 1] \<subseteq> set unshuffled_cards
   \<and> get_hand_value
       (Player [Card (StrRank ''K'') (suits ! 0) 10, Card (StrRank ''Q'') (suits ! 2) 10,
                Card (StrRank ''A'') (suits ! 3) 1] 50 ''chinedu'')
     = score_spec [Card (StrRank ''K'') (suits ! 0) 10, Card (StrRank ''Q'') (suits ! 2) 10,
              Card (StrRank ''A'') (suits ! 3) 1] 21
   \<and> score_spec [Card (StrRank ''K'') (suits ! 0) 10, Card (StrRank ''Q'') (suits ! 2) 10,
            Card (StrRank ''A'') (suits ! 3) 1] 21 = 21"
proof -
  have sub: "set [Card (StrRank ''K'') (suits ! 0) 10, Card (StrRank ''Q'') (suits ! 2) 10,
        Card (StrRank ''A'') (suits ! 3) 1] \<subseteq> set unshuffled_cards"
    by (simp add: unshuffled_cards_def cards_of_suit_def suits_def)
  have "score_spec [Card (StrRank ''K'') (suits ! 0) 10, Card (StrRank ''Q'') (suits ! 2) 10,
            Card (StrRank ''A'') (suits ! 3) 1] 21 = 21"
    by (simp add: score_spec_def base_total_def is_ace_def)
  with sub player_hand_value [OF sub, of 50 "''chinedu''"] show ?thesis
    by blast
qed

section \<open>Displaying never fails on dealt hands\<close>

lemma split_str_nonempty [simp]: "split_str sep x \<noteq> []"
  by (induction x) (auto split: list.splits)

lemma length_split_str:
  "length (split_str sep x) = Suc (length (filter (\<lambda>c. c = sep) x))"
  by (induction x) (auto split: list.splits)

lemma card_lines:
  "plain_card c \<Longrightarrow> length (split_str CHR ''\<newline>'' (get_string_repr c)) = 4"
  by (subst length_split_str)
     (auto simp: get_string_repr_def Let_def ljust_def rjust_def plain_card_def filter_empty_conv)

lemma hidden_lines: "length (split_str CHR ''\<newline>'' hidden_card) = 4"
  by (simp add: hidden_card_def)

lemma cards_row_ok: "\<forall>c\<in>set cs. i < length c \<Longrightarrow> \<exists>r. cards_row cs i = Inr r"
  by (induction cs) auto

lemma cards_rows_ok:
  "\<forall>i\<in>set js. \<forall>c\<in>set cs. i < length c \<Longrightarrow> \<exists>t. cards_rows cs js = Inr t"
proof (induction js)
  case Nil
  show ?case by simp
next
  case (Cons i js)
  then obtain r t where "cards_row cs i = Inr r" "cards_rows cs js = Inr t"
    using cards_row_ok [of cs i] by auto
  then show ?case by simp
qed

lemma show_all_cards_ok:
  assumes "can_show e"
  shows "\<exists>txt. show_all_cards e h = Inr txt"
proof -
  from assms obtain c cs where h: "hand e = c # cs" and p: "plain_card c" "list_all plain_card cs"
    by (cases "hand e") (auto simp: can_show_def)
  let ?first = "if h then split_str CHR ''\<newline>'' hidden_card
                else split_str CHR ''\<newline>'' (get_string_repr c)"
  let ?rest = "map (\<lambda>c. split_str CHR ''\<newline>'' (get_string_repr c)) cs"
  have len: "length ?first = 4"
    using p by (simp add: card_lines hidden_lines)
  have "\<forall>l\<in>set (?first # ?rest). length l = 4"
    using p len by (auto simp: card_lines list_all_iff)
  then have "\<forall>i\<in>set [0..<length ?first]. \<forall>l\<in>set (?first # ?rest). i < length l"
    using len by simp
  from cards_rows_ok [OF this] show ?thesis
    using h by (simp add: show_all_cards_def Let_def)
qed

lemma print_cards_ok:
  assumes "\<exists>txt. ref_show s e h = Inr txt"
  shows "\<exists>out. print_cards e h s = (Inr (), s\<lparr>stdout := out\<rparr>)"
  using assms by (auto simp: print_cards_def print_def)

lemma display_scores_ok:
  assumes "showable s"
  shows "\<exists>out. display_scores a b c d s = (Inr (), s\<lparr>stdout := out\<rparr>)"
proof -
  have one: "\<exists>out. (if g then print_cards e h (print_total e h' t) else (Inr (), t))
                 = (Inr (), t\<lparr>stdout := out\<rparr>)"
    if "g \<Longrightarrow> \<exists>txt. ref_show t e h = Inr txt" for g e h h' t
  proof (cases g)
    case True
    with that have "\<exists>txt. ref_show (print_total e h' t) e h = Inr txt" by simp
    from print_cards_ok [OF this] True show ?thesis
      by (auto simp: print_total_def print_def)
  next
    case False
    then show ?thesis by (auto intro: exI [of _ "stdout t"])
  qed
  from assms have d: "\<exists>txt. ref_show s Dealer_ref (\<not> a) = Inr txt"
    and p: "\<exists>txt. ref_show s Player_ref False = Inr txt"
    and x: "split s \<Longrightarrow> \<exists>txt. ref_show s Player_split_ref False = Inr txt"
    by (simp_all add: showable_def show_all_cards_ok)
  from one [of b s Dealer_ref "\<not> a" a] d obtain o1 where
    1: "(if b then print_cards Dealer_ref (\<not> a) (print_total Dealer_ref a s) else (Inr (), s))
        = (Inr (), s\<lparr>stdout := o1\<rparr>)"
    by blast
  from one [of c "s\<lparr>stdout := o1\<rparr>" Player_ref False False] p obtain o2 where
    2: "(if c then print_cards Player_ref False (print_total Player_ref False (s\<lparr>stdout := o1\<rparr>))
         else (Inr (), s\<lparr>stdout := o1\<rparr>))
        = (Inr (), s\<lparr>stdout := o2\<rparr>)"
    by auto
  from one [of "d \<and> split s" "s\<lparr>stdout := o2\<rparr>" Player_split_ref False False] x obtain o3 where
    3: "(if d \<and> split s
         then print_cards Player_split_ref False (print_total Player_split_ref False (s\<lparr>stdout := o2\<rparr>))
         else (Inr (), s\<lparr>stdout := o2\<rparr>))
        = (Inr (), s\<lparr>stdout := o3\<rparr>)"
    by auto
  show ?thesis
    unfolding display_scores_def using 1 2 3 by (auto simp: and_then_def)
qed


lemma deck_card_plain: "c \<in> set unshuffled_cards \<Longrightarrow> plain_card c"
  by (auto simp: unshuffled_cards_def cards_of_suit_def suits_def plain_card_def str_int_def
        str_nat.simps)

section \<open>Settlement, split and double down\<close>

lemma ref_stdout_update [simp]:
  "ref_hand (s\<lparr>stdout := out\<rparr>) e = ref_hand s e" "ref_value (s\<lparr>stdout := out\<rparr>) e = ref_value s e"
  "ref_limit (s\<lparr>stdout := out\<rparr>) e = ref_limit s e" "ref_name (s\<lparr>stdout := out\<rparr>) e = ref_name s e"
  "ref_money (s\<lparr>stdout := out\<rparr>) e = ref_money s e"
  "ref_show (s\<lparr>stdout := out\<rparr>) e h = ref_show s e h"
  by (cases e; simp)+

lemma upto_stdoutI:
  "fst r = Inr u \<Longrightarrow> snd r = t\<lparr>stdout := stdout (snd r)\<rparr> \<Longrightarrow> \<exists>out. r = (Inr u, t\<lparr>stdout := out\<rparr>)"
  by (cases r) auto

text \<open>
  C10. When the player has not split, the second hand's turn and its settlement return
  at once and leave the whole state as it was: bankroll, deck, the three hands, and
  the console.
\<close>

theorem unsplit_second_hand_untouched:
  "\<not> split s \<Longrightarrow>
     entity_play Player_split_ref s = (Inr (), s)
     \<and> check_who_wins Player_split_ref s = (Inr (), s)"
  by (simp add: entity_play_def check_who_wins_def player_or_split_def)

text \<open>
  C6. Settling a player's hand (the main hand, or the second hand after a split) whose
  limit is 21, with bet \<open>B\<close>, hand value \<open>E\<close> and dealer's value \<open>D\<close> as
  \<open>get_hand_value\<close> computes them: the bankroll loses \<open>B\<close> if \<open>E > 21\<close>, else gains
  \<open>B\<close> if \<open>D > 21\<close>, else loses \<open>B\<close> if \<open>E < D\<close>, else gains \<open>B\<close> if \<open>E > D\<close>,
  and is unchanged on a tie. Nothing else changes but the console output.
\<close>

theorem check_who_wins_settles:
  assumes "showable s" and "e = Player_ref \<or> split s"
    and "ref_money s e = Inr B" and "ref_limit s e = 21"
  shows "\<exists>out. check_who_wins e s =
           (Inr (),
            s\<lparr>start_amount :=
                 (if ref_value s e > 21 then start_amount s - B
                  else if get_hand_value (dealer s) > 21 then start_amount s + B
                  else if ref_value s e < get_hand_value (dealer s) then start_amount s - B
                  else if ref_value s e > get_hand_value (dealer s) then start_amount s + B
                  else start_amount s),
              stdout := out\<rparr>)"
proof -
  from display_scores_ok [OF assms(1)] obtain o1 where
    d: "display_scores True True (e = Player_ref) (e \<noteq> Player_ref) s = (Inr (), s\<lparr>stdout := o1\<rparr>)"
    by blast
  show ?thesis
    by (rule upto_stdoutI)
       (use assms(2-4) d in \<open>auto simp: check_who_wins_def player_or_split_def Let_def
          and_then_def read_money_def print_def\<close>)
qed

text \<open>
  A round in progress for the witnesses: the player holds two eights on a bet of 100
  out of 1000, the dealer a king and a seven, four cards are left in the deck.
\<close>

abbreviation "sample \<equiv>
  \<lparr>start_amount = 1000,
   deck = [Card (IntRank 5) (suits ! 1) 5, Card (StrRank ''Q'') (suits ! 0) 10,
           Card (IntRank 3) (suits ! 3) 3, Card (StrRank ''K'') (suits ! 2) 10],
   player_name = ''chinedu'',
   player = Player [Card (IntRank 8) (suits ! 0) 8, Card (IntRank 8) (suits ! 2) 8] 100 ''chinedu'',
   dealer = Dealer [Card (StrRank ''K'') (suits ! 1) 10, Card (IntRank 7) (suits ! 3) 7],
   player_split = Player [] 0 ''chinedu hand_two'',
   split = False, stdin = [], stdout = []\<rparr>"

theorem unsplit_second_hand_untouched_witness:
  "\<not> split sample
   \<and> entity_play Player_split_ref sample = (Inr (), sample)
   \<and> check_who_wins Player_split_ref sample = (Inr (), sample)"
  using unsplit_second_hand_untouched [of sample] by simp

theorem check_who_wins_settles_witness:
  "showable sample \<and> ref_money sample Player_ref = Inr 100 \<and> ref_limit sample Player_ref = 21
   \<and> (\<exists>out. check_who_wins Player_ref sample = (Inr (), sample\<lparr>start_amount := 900, stdout := out\<rparr>))"
proof -
  have s: "showable sample"
    by (simp add: showable_def can_show_def plain_card_def Player_def Dealer_def suits_def
          str_int_def str_nat.simps)
  have m: "ref_money sample Player_ref = Inr 100" "ref_limit sample Player_ref = 21"
    by (simp_all add: Player_def)
  have v: "ref_value sample Player_ref = 16" "get_hand_value (dealer sample) = 17"
    by (simp_all add: Player_def Dealer_def get_hand_value_def count_step_def ace_step_def)
  from check_who_wins_settles [OF s _ m] s m v show ?thesis
    by simp
qed

text \<open>
  C7. Splitting a two-card main hand while the second hand is empty and the deck holds
  two cards or more: the main hand's second card moves to the second hand, the top
  card of the deck goes to the second hand and the next one to the main hand (two
  cards each), the second hand's bet becomes the main hand's bet, which stays, the
  flag \<open>split\<close> is set, and the bankroll is untouched.
\<close>

theorem entity_split_effect:
  assumes "hand (player s) = [a, b]" and "hand (player_split s) = []"
    and "deck s = d @ [c1, c2]"
  shows "\<exists>out. entity_split s =
           (Inr (),
            s\<lparr>deck := d,
              player := (player s)\<lparr>hand := [a, c1]\<rparr>,
              player_split := (player_split s)\<lparr>hand := [b, c2], money := money (player s)\<rparr>,
              split := True,
              stdout := out\<rparr>)"
  by (rule upto_stdoutI)
     (use assms in \<open>simp_all add: entity_split_def Let_def and_then_def deck_pop_def print_def
        butlast_append\<close>)

theorem entity_split_effect_witness:
  "\<exists>out. entity_split sample =
     (Inr (),
      sample\<lparr>deck := [Card (IntRank 5) (suits ! 1) 5, Card (StrRank ''Q'') (suits ! 0) 10],
             player := Player [Card (IntRank 8) (suits ! 0) 8, Card (IntRank 3) (suits ! 3) 3]
                         100 ''chinedu'',
             player_split := Player [Card (IntRank 8) (suits ! 2) 8,
                                     Card (StrRank ''K'') (suits ! 2) 10] 100 ''chinedu hand_two'',
             split := True, stdout := out\<rparr>)"
  using entity_split_effect [of sample "Card (IntRank 8) (suits ! 0) 8"
      "Card (IntRank 8) (suits ! 2) 8" "[Card (IntRank 5) (suits ! 1) 5,
      Card (StrRank ''Q'') (suits ! 0) 10]" "Card (IntRank 3) (suits ! 3) 3"
      "Card (StrRank ''K'') (suits ! 2) 10"]
  by (simp add: Player_def)

lemma deck_card_rank:
  "c \<in> set unshuffled_cards \<Longrightarrow>
     rank c \<in> set (map IntRank [2..10] @ map StrRank [''J'', ''Q'', ''K'', ''A''])"
  by (auto simp: unshuffled_cards_def cards_of_suit_def)

lemma str_rank_deck:
  assumes "c \<in> set unshuffled_cards" and "c' \<in> set unshuffled_cards"
  shows "str_rank (rank c) = str_rank (rank c') \<longleftrightarrow> rank c = rank c'"
  using deck_card_rank [OF assms(1)] deck_card_rank [OF assms(2)]
  by (auto simp: str_int_def str_nat.simps)

lemma choose_move_X_offered:
  "choose_move moves p s = (Inr ''X'', s') \<Longrightarrow> ''(X)split'' \<in> set moves"
proof (induction moves p s rule: choose_move.induct)
  case (1 moves prompt s)
  from "1.prems" [unfolded choose_move.simps [of moves prompt s]]
  obtain line s1 where inp: "input prompt s = (Inr line, s1)"
    and rest: "(let player_choice = upper (strip line)
       in if player_choice \<in> set [''H'', ''S''] then (Inr player_choice, s1)
          else if player_choice = ''D'' \<and> ''(D)ouble down'' \<in> set moves
            then (Inr player_choice, s1)
          else if player_choice = ''X'' \<and> ''(X)split'' \<in> set moves
            then (Inr player_choice, s1)
          else choose_move moves prompt (print ''Enter a valid choice.'' s1)) = (Inr ''X'', s')"
    by (elim and_then_cases) auto
  show ?case
  proof (rule ccontr)
    assume no: "''(X)split'' \<notin> set moves"
    with rest have rec: "choose_move moves prompt (print ''Enter a valid choice.'' s1) = (Inr ''X'', s')"
      and c: "upper (strip line) \<notin> set [''H'', ''S'']"
         "\<not> (upper (strip line) = ''D'' \<and> ''(D)ouble down'' \<in> set moves)"
         "\<not> (upper (strip line) = ''X'' \<and> ''(X)split'' \<in> set moves)"
      by (auto simp: Let_def split: if_splits)
    from "1.IH" [OF inp refl c rec] no show False by simp
  qed
qed

text \<open>
  C4. For a player's hand (an entity with a bet) holding cards of the deck, the moves
  offered always contain Hit and Stand, and contain Split exactly when the hand has two
  cards of equal rank, the entity is the main hand, no split has happened in the round,
  and the bankroll minus the bet is at least the bet. An answer \<open>X\<close> is returned only
  when Split is offered, and at once when it is.
\<close>

theorem split_offered_iff:
  assumes "ref_money s e = Inr m" and "set (ref_hand s e) \<subseteq> set unshuffled_cards"
  shows "\<exists>moves. possible_moves e s = Inr moves
     \<and> ''(H)it'' \<in> set moves \<and> ''(S)tand'' \<in> set moves
     \<and> (''(X)split'' \<in> set moves \<longleftrightarrow>
          length (ref_hand s e) = 2 \<and> rank (ref_hand s e ! 0) = rank (ref_hand s e ! 1)
          \<and> e = Player_ref \<and> \<not> split s \<and> start_amount s - m \<ge> m)
     \<and> (\<forall>s'. entity_possible_moves e s = (Inr ''X'', s') \<longrightarrow> ''(X)split'' \<in> set moves)
     \<and> (\<forall>l ls. ''(X)split'' \<in> set moves \<and> stdin s = l # ls \<and> upper (strip l) = ''X'' \<longrightarrow>
           entity_possible_moves e s =
             (Inr ''X'', s\<lparr>stdin := ls, stdout := stdout s @ [join '', '' moves @ ''> '']\<rparr>))"
proof -
  have eq: "str_rank (rank (ref_hand s e ! 0)) = str_rank (rank (ref_hand s e ! 1))
      \<longleftrightarrow> rank (ref_hand s e ! 0) = rank (ref_hand s e ! 1)"
    if "length (ref_hand s e) = 2"
  proof -
    from that assms(2) have "ref_hand s e ! 0 \<in> set unshuffled_cards"
      "ref_hand s e ! 1 \<in> set unshuffled_cards"
      by (auto simp: subset_iff)
    then show ?thesis by (rule str_rank_deck)
  qed
  have "\<exists>moves. possible_moves e s = Inr moves"
    using assms(1) by (simp add: possible_moves_def Let_def)
  then obtain moves where m: "possible_moves e s = Inr moves" ..
  have hs: "''(H)it'' \<in> set moves" "''(S)tand'' \<in> set moves"
    using m assms(1) by (auto simp: possible_moves_def Let_def split: if_splits)
  have x: "''(X)split'' \<in> set moves \<longleftrightarrow>
          length (ref_hand s e) = 2 \<and> rank (ref_hand s e ! 0) = rank (ref_hand s e ! 1)
          \<and> e = Player_ref \<and> \<not> split s \<and> start_amount s - m \<ge> m"
    using m assms(1) eq by (auto simp: possible_moves_def Let_def split: if_splits)
  have only: "''(X)split'' \<in> set moves" if "entity_possible_moves e s = (Inr ''X'', s')" for s'
    using that m by (auto simp: entity_possible_moves_def dest: choose_move_X_offered)
  have first: "entity_possible_moves e s =
             (Inr ''X'', s\<lparr>stdin := ls, stdout := stdout s @ [join '', '' moves @ ''> '']\<rparr>)"
    if "''(X)split'' \<in> set moves" "stdin s = l # ls" "upper (strip l) = ''X''" for l ls
    using that m
    by (simp add: entity_possible_moves_def choose_move.simps [of moves _ s] input_def and_then_def)
  from m hs x only first show ?thesis by blast
qed

theorem split_offered_iff_witness:
  "ref_money sample Player_ref = Inr 100
   \<and> set (ref_hand sample Player_ref) \<subseteq> set unshuffled_cards
   \<and> possible_moves Player_ref sample = Inr [''(H)it'', ''(S)tand'', ''(D)ouble down'', ''(X)split'']
   \<and> length (ref_hand sample Player_ref) = 2
   \<and> rank (ref_hand sample Player_ref ! 0) = rank (ref_hand sample Player_ref ! 1)
   \<and> \<not> split sample \<and> start_amount sample - 100 \<ge> 100
   \<and> entity_possible_moves Player_ref (sample\<lparr>stdin := ['' x'']\<rparr>) =
        (Inr ''X'', sample\<lparr>stdin := [], stdout := [''(H)it, (S)tand, (D)ouble down, (X)split> '']\<rparr>)"
proof -
  have m: "ref_money (sample\<lparr>stdin := ['' x'']\<rparr>) Player_ref = Inr 100"
    by (simp add: Player_def)
  have d: "set (ref_hand (sample\<lparr>stdin := ['' x'']\<rparr>) Player_ref) \<subseteq> set unshuffled_cards"
    by (simp add: Player_def unshuffled_cards_def cards_of_suit_def suits_def)
  have p: "possible_moves Player_ref (sample\<lparr>stdin := ['' x'']\<rparr>)
      = Inr [''(H)it'', ''(S)tand'', ''(D)ouble down'', ''(X)split'']"
    "possible_moves Player_ref sample
      = Inr [''(H)it'', ''(S)tand'', ''(D)ouble down'', ''(X)split'']"
    by (simp_all add: possible_moves_def Player_def str_int_def str_nat.simps)
  have u: "upper (strip '' x'') = ''X''"
    by (simp add: upper_def strip_def is_space_def upper_char_def)
  from split_offered_iff [OF m d] p u m d show ?thesis
    by (simp add: Player_def)
qed

lemma showable_cong:
  assumes "hand (dealer s') = hand (dealer s)" "hand (player s') = hand (player s)"
    "hand (player_split s') = hand (player_split s)" "split s' = split s"
  shows "showable s' = showable s"
  using assms by (simp add: showable_def can_show_def)


lemma hand_append_frame [simp]:
  "deck (hand_append e c s) = deck s" "split (hand_append e c s) = split s"
  "start_amount (hand_append e c s) = start_amount s"
  "stdout (hand_append e c s) = stdout s"
  by (cases e; simp)+


lemma showable_set_money [simp]: "showable (set_money e m s) = showable s"
  by (rule showable_cong; cases e; simp)

lemma set_money_frame [simp]:
  "deck (set_money e m s) = deck s" "split (set_money e m s) = split s"
  "start_amount (set_money e m s) = start_amount s"
  "stdout (set_money e m s) = stdout s"
  by (cases e; simp)+


lemma possible_moves_print [simp]: "possible_moves e (print x s) = possible_moves e s"
  by (simp add: possible_moves_def Let_def split: sum.splits)

lemma choose_move_accepts:
  assumes "stdin s = l # ls" and "upper (strip l) = x"
    and "x \<in> set [''H'', ''S''] \<or> x = ''D'' \<and> ''(D)ouble down'' \<in> set moves
         \<or> x = ''X'' \<and> ''(X)split'' \<in> set moves"
  shows "choose_move moves p s = (Inr x, s\<lparr>stdin := ls, stdout := stdout s @ [p]\<rparr>)"
  by (subst choose_move.simps) (use assms in \<open>auto simp: input_def and_then_def\<close>)

lemma entity_possible_moves_accepts:
  assumes "possible_moves e s = Inr moves" and "stdin s = l # ls" and "upper (strip l) = x"
    and "x \<in> set [''H'', ''S''] \<or> x = ''D'' \<and> ''(D)ouble down'' \<in> set moves
         \<or> x = ''X'' \<and> ''(X)split'' \<in> set moves"
  shows "entity_possible_moves e s =
           (Inr x, s\<lparr>stdin := ls, stdout := stdout s @ [join '', '' moves @ ''> '']\<rparr>)"
  using assms(1) choose_move_accepts [OF assms(2-4)] by (simp add: entity_possible_moves_def)

lemma upper_moves [simp]: "upper ''D'' = ''D''" "upper ''X'' = ''X''" "upper ''H'' = ''H''" "upper ''S'' = ''S''"
  by (simp_all add: upper_def upper_char_def)



section \<open>The dealer draws to 17\<close>





section \<open>After a split\<close>

text \<open>
  C8, as the code has it. When the main hand answers \<open>X\<close> and Split is offered, the hand
  is split, and then: if the main hand's new value is below its limit, its turn goes on
  with the next decision, at which exactly Hit and Stand are offered (Double down and
  Split are not, since a split has occurred); otherwise its turn ends there.
\<close>

theorem split_then_continue:
  assumes "showable s" and "hand (player s) = [a, b]" and "hand (player_split s) = []"
    and "deck s = d @ [c1, c2]" and "plain_card c1" and "plain_card c2"
    and "stdin s = l # ls" and "upper (strip l) = ''X''"
    and "possible_moves Player_ref s = Inr moves" and "''(X)split'' \<in> set moves"
    and "get_hand_value (player s) \<le> limit (player s)"
  shows "\<exists>out.
    possible_moves Player_ref
      (s\<lparr>deck := d, player := (player s)\<lparr>hand := [a, c1]\<rparr>,
         player_split := (player_split s)\<lparr>hand := [b, c2], money := money (player s)\<rparr>,
         split := True, stdin := ls, stdout := out\<rparr>) = Inr [''(H)it'', ''(S)tand'']
    \<and> entity_play Player_ref s =
        (if get_hand_value ((player s)\<lparr>hand := [a, c1]\<rparr>) < limit (player s)
         then play_loop Player_ref
                (s\<lparr>deck := d, player := (player s)\<lparr>hand := [a, c1]\<rparr>,
                   player_split := (player_split s)\<lparr>hand := [b, c2], money := money (player s)\<rparr>,
                   split := True, stdin := ls, stdout := out\<rparr>)
         else (Inr (),
               s\<lparr>deck := d, player := (player s)\<lparr>hand := [a, c1]\<rparr>,
                 player_split := (player_split s)\<lparr>hand := [b, c2], money := money (player s)\<rparr>,
                 split := True, stdin := ls, stdout := out\<rparr>))"
proof -
  let ?p = "print (''\<newline>----'' @ ref_name s Player_ref @ '' pick a move---\<newline>'') s"
  let ?s0 = "?p\<lparr>stdin := ls, stdout := stdout ?p @ [join '', '' moves @ ''> '']\<rparr>"
  let ?S = "\<lambda>out. s\<lparr>deck := d, player := (player s)\<lparr>hand := [a, c1]\<rparr>,
         player_split := (player_split s)\<lparr>hand := [b, c2], money := money (player s)\<rparr>,
         split := True, stdin := ls, stdout := out\<rparr>"
  have pm: "entity_possible_moves Player_ref ?p = (Inr ''X'', ?s0)"
    by (rule entity_possible_moves_accepts [where l = l]) (use assms(7-10) in simp_all)
  have "hand (player ?s0) = [a, b]" "hand (player_split ?s0) = []" "deck ?s0 = d @ [c1, c2]"
    using assms(2-4) by simp_all
  from entity_split_effect [OF this] obtain o1 where
    "entity_split ?s0 =
       (Inr (),
        ?s0\<lparr>deck := d, player := (player ?s0)\<lparr>hand := [a, c1]\<rparr>,
            player_split := (player_split ?s0)\<lparr>hand := [b, c2], money := money (player ?s0)\<rparr>,
            split := True, stdout := o1\<rparr>)"
    by blast
  then have sp: "entity_split ?s0 = (Inr (), ?S o1)"
    by (simp add: print_def)
  from assms(1,2,5,6) have "showable (?S o1)"
    by (auto simp: showable_def can_show_def)
  from display_scores_ok [OF this, of False True True True] obtain o2 where
    di: "display_scores False True True True (?S o1) = (Inr (), ?S o2)"
    by auto
  have moves2: "possible_moves Player_ref (?S o2) = Inr [''(H)it'', ''(S)tand'']"
    by (simp add: possible_moves_def)
  have "entity_play Player_ref s =
        (if get_hand_value ((player s)\<lparr>hand := [a, c1]\<rparr>) < limit (player s)
         then play_loop Player_ref (?S o2) else (Inr (), ?S o2))"
    using assms(11) pm sp di
    by (simp add: entity_play_def player_or_split_def play_loop.simps [of Player_ref s] and_then_def
          upper_def upper_char_def)
  with moves2 show ?thesis by blast
qed

theorem split_then_continue_witness:
  "\<exists>out.
    possible_moves Player_ref
      (sample\<lparr>deck := [Card (IntRank 5) (suits ! 1) 5, Card (StrRank ''Q'') (suits ! 0) 10],
         player := Player [Card (IntRank 8) (suits ! 0) 8, Card (IntRank 3) (suits ! 3) 3]
                         100 ''chinedu'',
         player_split := Player [Card (IntRank 8) (suits ! 2) 8,
                                     Card (StrRank ''K'') (suits ! 2) 10] 100 ''chinedu hand_two'',
         split := True, stdin := [''d'', ''s''], stdout := out\<rparr>) = Inr [''(H)it'', ''(S)tand'']
    \<and> entity_play Player_ref (sample\<lparr>stdin := [''x'', ''d'', ''s'']\<rparr>) =
        play_loop Player_ref
      (sample\<lparr>deck := [Card (IntRank 5) (suits ! 1) 5, Card (StrRank ''Q'') (suits ! 0) 10],
         player := Player [Card (IntRank 8) (suits ! 0) 8, Card (IntRank 3) (suits ! 3) 3]
                         100 ''chinedu'',
         player_split := Player [Card (IntRank 8) (suits ! 2) 8,
                                     Card (StrRank ''K'') (suits ! 2) 10] 100 ''chinedu hand_two'',
         split := True, stdin := [''d'', ''s''], stdout := out\<rparr>)"
proof -
  let ?s = "sample\<lparr>stdin := [''x'', ''d'', ''s'']\<rparr>"
  have s: "showable ?s"
    by (simp add: showable_def can_show_def plain_card_def Player_def Dealer_def suits_def
          str_int_def str_nat.simps)
  have h: "hand (player ?s) = [Card (IntRank 8) (suits ! 0) 8, Card (IntRank 8) (suits ! 2) 8]"
    "hand (player_split ?s) = []"
    "deck ?s = [Card (IntRank 5) (suits ! 1) 5, Card (StrRank ''Q'') (suits ! 0) 10]
       @ [Card (IntRank 3) (suits ! 3) 3, Card (StrRank ''K'') (suits ! 2) 10]"
    by (simp_all add: Player_def)
  have c: "plain_card (Card (IntRank 3) (suits ! 3) 3)" "plain_card (Card (StrRank ''K'') (suits ! 2) 10)"
    by (simp_all add: plain_card_def suits_def str_int_def str_nat.simps)
  have i: "stdin ?s = ''x'' # [''d'', ''s'']" "upper (strip ''x'') = ''X''"
    by (simp_all add: upper_def strip_def is_space_def upper_char_def)
  have p: "possible_moves Player_ref ?s = Inr [''(H)it'', ''(S)tand'', ''(D)ouble down'', ''(X)split'']"
    "''(X)split'' \<in> set [''(H)it'', ''(S)tand'', ''(D)ouble down'', ''(X)split'']"
    by (simp_all add: possible_moves_def Player_def str_int_def str_nat.simps)
  have v: "get_hand_value (player ?s) \<le> limit (player ?s)"
    "get_hand_value ((player ?s)\<lparr>hand := [Card (IntRank 8) (suits ! 0) 8, Card (IntRank 3) (suits ! 3) 3]\<rparr>)
      < limit (player ?s)"
    by (simp_all add: Player_def get_hand_value_def count_step_def ace_step_def)
  from split_then_continue [OF s h c i p v(1)] v(2) show ?thesis
    by (simp add: Player_def)
qed

text \<open>
  C8, as stated, fails: after the split of two eights the main hand holds 11 of 21 and
  goes on, but Double down is not among the moves offered; the answer \<open>d\<close> is refused
  and the hand stands on the next answer with its bet and its two cards unchanged.
\<close>

theorem double_down_after_split_counterexample:
  "fst (entity_split sample) = Inr ()
   \<and> get_hand_value (player (snd (entity_split sample))) = 11
   \<and> limit (player (snd (entity_split sample))) = 21
   \<and> possible_moves Player_ref (snd (entity_split sample)) = Inr [''(H)it'', ''(S)tand'']
   \<and> ''(D)ouble down'' \<notin> set [''(H)it'', ''(S)tand'']
   \<and> fst (entity_play Player_ref (sample\<lparr>stdin := [''x'', ''d'', ''s'']\<rparr>)) = Inr ()
   \<and> drop 11 (stdout (snd (entity_play Player_ref (sample\<lparr>stdin := [''x'', ''d'', ''s'']\<rparr>))))
       = [''\<newline>----chinedu pick a move---\<newline>\<newline>'', ''(H)it, (S)tand> '',
          ''Enter a valid choice.\<newline>'', ''(H)it, (S)tand> '',
          ''chinedu chooses to stand down...\<newline>'']
   \<and> player (snd (entity_play Player_ref (sample\<lparr>stdin := [''x'', ''d'', ''s'']\<rparr>)))
       = Player [Card (IntRank 8) (suits ! 0) 8, Card (IntRank 3) (suits ! 3) 3] 100 ''chinedu''"
  by (simp add: entity_play_def player_or_split_def play_loop.simps Player_def Dealer_def
     get_hand_value_def count_step_def ace_step_def entity_possible_moves_def possible_moves_def
     choose_move.simps input_def and_then_def print_def str_int_def str_nat.simps
     upper_def upper_char_def strip_def is_space_def entity_split_def deck_pop_def Let_def
     display_scores_def print_total_def print_cards_def show_all_cards_def get_string_repr_def
     ljust_def rjust_def hidden_card_def lower_def lower_char_def entity_stand_def suits_def upt_rec)

section \<open>Running out of money\<close>

text \<open>
  C9. From a state whose bankroll is below 1, the session loop raises \<open>SystemExit\<close> at
  once: it writes the three lines of the broke message and nothing else, so no bet is
  asked for, no line of input is read, and the deck and the hands stay as they are; no
  round is played. The witness also runs a session in which the player bets all of 100,
  stands on 16 against the dealer's 17 and loses: the loop ends there, leaving the next
  line of input unread.
\<close>

theorem broke_session_ends:
  assumes "start_amount s < 1"
  shows "game_loop shuf i s =
           (Inl SystemExit,
            s\<lparr>stdout := stdout s
                 @ [''You've run out of money\<newline>'',
                    ''Good thing you weren't using real money.\<newline>'',
                    ''Try to seek professional help for your gambling problems.\<newline>'']\<rparr>)"
  using assms by (simp add: game_loop.simps [of shuf i s] print_def)


theorem broke_session_ends_witness:
  "game_loop (\<lambda>i. rev) 7 (sample\<lparr>start_amount := 0\<rparr>) =
     (Inl SystemExit,
      sample\<lparr>start_amount := 0,
             stdout := [''You've run out of money\<newline>'',
                        ''Good thing you weren't using real money.\<newline>'',
                        ''Try to seek professional help for your gambling problems.\<newline>'']\<rparr>)
   \<and> fst (game_loop (\<lambda>i. rev) 0 (sample\<lparr>start_amount := 100, stdin := [''100'', ''s'', [], ''50'']\<rparr>))
       = Inl SystemExit
   \<and> start_amount (snd (game_loop (\<lambda>i. rev) 0
        (sample\<lparr>start_amount := 100, stdin := [''100'', ''s'', [], ''50'']\<rparr>))) = 0
   \<and> stdin (snd (game_loop (\<lambda>i. rev) 0
        (sample\<lparr>start_amount := 100, stdin := [''100'', ''s'', [], ''50'']\<rparr>))) = [''50'']"
proof -
  let ?s = "sample\<lparr>start_amount := 100, stdin := [''100'', ''s'', [], ''50'']\<rparr>"
  have one: "game_loop (\<lambda>i. rev) 7 (sample\<lparr>start_amount := 0\<rparr>) =
     (Inl SystemExit,
      sample\<lparr>start_amount := 0,
             stdout := [''You've run out of money\<newline>'',
                        ''Good thing you weren't using real money.\<newline>'',
                        ''Try to seek professional help for your gambling problems.\<newline>'']\<rparr>)"
    using broke_session_ends [of "sample\<lparr>start_amount := 0\<rparr>" "\<lambda>i. rev" 7] by simp
  obtain s9 where round: "game_loop (\<lambda>i. rev) 0 ?s = game_loop (\<lambda>i. rev) (Suc 0) s9"
    and s9: "start_amount s9 = 0" "stdin s9 = [''50'']"
    by (simp add: game_loop.simps [of _ 0] entity_bet_def bet_loop.simps py_int_def digit_val_def
     entity_play_def player_or_split_def play_loop.simps Player_def Dealer_def
     get_hand_value_def count_step_def ace_step_def entity_possible_moves_def possible_moves_def
     choose_move.simps input_def and_then_def print_def str_int_def str_nat.simps
     upper_def upper_char_def strip_def is_space_def deck_pop_def Let_def
     display_scores_def print_total_def print_cards_def show_all_cards_def get_string_repr_def
     ljust_def rjust_def hidden_card_def lower_def lower_char_def entity_stand_def suits_def upt_rec
     check_if_dealer_plays_def dealer_play.simps check_who_wins_def read_money_def reset_def
     make_cards_def unshuffled_cards_def cards_of_suit_def)
  from broke_session_ends [of s9 "\<lambda>i. rev" "Suc 0"] s9 round one show ?thesis
    by simp
qed

end
